theory Spec2Isabelle
  imports Complex_Main "HOL-Library.AList"
begin

section \<open>The product grid viewer: filters, sorting and pending edits of main.js\<close>

text \<open>
  The script \<^verbatim>\<open>static/js/main.js\<close> drives a page that shows a catalogue of products as a
  grid, filters and sorts it, lets the operator edit one product in a modal dialog and
  collects the edits in \<^verbatim>\<open>pendingChanges\<close> until they are posted to the server.

  The script works on the page's DOM and on a few globals. The embedding makes both
  explicit: the globals and the parts of the DOM the script reads or writes are fields of
  a state record, every handler of the script is a function from states to states, and
  what a handler shows to the operator (\<^verbatim>\<open>alert\<close>) or sends (\<^verbatim>\<open>fetch\<close>) is appended to a log
  in the state. Strings are lists of code units; the model covers code units below 256.
\<close>

subsection \<open>Strings\<close>

text \<open>\<^verbatim>\<open>\d\<close> and \<^verbatim>\<open>[0-9]\<close>: the ten ASCII digits.\<close>

definition is_digit :: "char \<Rightarrow> bool" where
  "is_digit c \<longleftrightarrow> c \<in> set ''0123456789''"

text \<open>
  \<^verbatim>\<open>String.prototype.trim\<close> removes white space and line terminators from both ends. Below
  code unit 256 these are TAB, LF, VT, FF, CR, SPACE and NBSP.
\<close>

definition is_ws :: "char \<Rightarrow> bool" where
  "is_ws c \<longleftrightarrow> (of_char c :: nat) \<in> {9, 10, 11, 12, 13, 32, 160}"

definition trim :: "string \<Rightarrow> string" where
  "trim s = rev (dropWhile is_ws (rev (dropWhile is_ws s)))"

text \<open>
  \<^verbatim>\<open>s.replace(/c/g, t)\<close> for a pattern that matches single characters: every character of
  the class is replaced by \<open>t\<close>.
\<close>

definition replace_all :: "char list \<Rightarrow> string \<Rightarrow> string \<Rightarrow> string" where
  "replace_all cls t s = concat (map (\<lambda>c. if c \<in> set cls then t else [c]) s)"

text \<open>
  \<^verbatim>\<open>function sanitizeAttr(attr)\<close>: five replacements, one after the other.
\<close>

definition sanitizeAttr :: "string \<Rightarrow> string" where
  "sanitizeAttr attr =
     replace_all '':'' ''''
       (replace_all ''+'' ''plus''
         (replace_all ''()'' ''''
           (replace_all ''/'' ''_''
             (replace_all '' '' ''_'' attr))))"

text \<open>
  \<^verbatim>\<open>String.prototype.toUpperCase\<close>. The model maps the ASCII letters and leaves every other
  code unit as it is. The upper-case forms of the other code units (for instance \<open>SS\<close> for
  U+00DF) hold none of the letters \<open>T\<close>, \<open>R\<close>, \<open>U\<close>, \<open>E\<close>, so the comparison with \<open>TRUE\<close>, the
  only use the script makes of the result, is the same.
\<close>

definition upper_char :: "char \<Rightarrow> char" where
  "upper_char c =
     (case map_of (zip ''abcdefghijklmnopqrstuvwxyz'' ''ABCDEFGHIJKLMNOPQRSTUVWXYZ'') c of
        Some u \<Rightarrow> u
      | None \<Rightarrow> c)"

definition toUpperCase :: "string \<Rightarrow> string" where
  "toUpperCase s = map upper_char s"

subsection \<open>Regular expressions\<close>

text \<open>
  The script tests the price against the literal \<^verbatim>\<open>/^\d+(\.\d+)?$/\<close>. The pattern is anchored
  at both ends, so \<^verbatim>\<open>test\<close> answers whether the whole string is in the pattern's language.
  The matcher below decides this by derivatives; \<open>lang\<close> is the language of a pattern.
\<close>

datatype regex =
    Fail
  | Empty
  | Class "char list"
  | Seq regex regex
  | Alt regex regex
  | Star regex

text \<open>\<^verbatim>\<open>r+\<close> and \<^verbatim>\<open>r?\<close>.\<close>

definition Plus :: "regex \<Rightarrow> regex" where
  "Plus r = Seq r (Star r)"

definition Opt :: "regex \<Rightarrow> regex" where
  "Opt r = Alt r Empty"

fun nullable :: "regex \<Rightarrow> bool" where
  "nullable Fail = False"
| "nullable Empty = True"
| "nullable (Class cs) = False"
| "nullable (Seq r s) = (nullable r \<and> nullable s)"
| "nullable (Alt r s) = (nullable r \<or> nullable s)"
| "nullable (Star r) = True"

fun deriv :: "char \<Rightarrow> regex \<Rightarrow> regex" where
  "deriv c Fail = Fail"
| "deriv c Empty = Fail"
| "deriv c (Class cs) = (if c \<in> set cs then Empty else Fail)"
| "deriv c (Seq r s) =
     (if nullable r then Alt (Seq (deriv c r) s) (deriv c s) else Seq (deriv c r) s)"
| "deriv c (Alt r s) = Alt (deriv c r) (deriv c s)"
| "deriv c (Star r) = Seq (deriv c r) (Star r)"

fun regex_test :: "regex \<Rightarrow> string \<Rightarrow> bool" where
  "regex_test r [] = nullable r"
| "regex_test r (c # s) = regex_test (deriv c r) s"

inductive_set star :: "string set \<Rightarrow> string set" for A :: "string set" where
  star_nil: "[] \<in> star A"
| star_app: "u \<in> A \<Longrightarrow> v \<in> star A \<Longrightarrow> u @ v \<in> star A"

fun lang :: "regex \<Rightarrow> string set" where
  "lang Fail = {}"
| "lang Empty = {[]}"
| "lang (Class cs) = {[c] | c. c \<in> set cs}"
| "lang (Seq r s) = {u @ v | u v. u \<in> lang r \<and> v \<in> lang s}"
| "lang (Alt r s) = lang r \<union> lang s"
| "lang (Star r) = star (lang r)"

text \<open>\<^verbatim>\<open>/^\d+(\.\d+)?$/\<close>\<close>

definition price_regex :: regex where
  "price_regex =
     Seq (Plus (Class ''0123456789'')) (Opt (Seq (Class ''.'') (Plus (Class ''0123456789''))))"

text \<open>\<^verbatim>\<open>newPrice.replace(/^\$/, '')\<close>: one leading dollar sign is removed.\<close>

definition strip_dollar :: "string \<Rightarrow> string" where
  "strip_dollar s = (case s of [] \<Rightarrow> [] | c # cs \<Rightarrow> if c = CHR ''$'' then cs else s)"

subsection \<open>Objects\<close>

text \<open>
  A JavaScript object used as a dictionary is the list of its properties, key and value,
  with no key twice. \<open>AList.update k v\<close> is the assignment \<^verbatim>\<open>o[k] = v\<close>: it overwrites the
  value of \<open>k\<close> in place or adds the property at the end; \<open>map_of o k\<close> is the read
  \<^verbatim>\<open>o[k]\<close>, \<open>None\<close> standing for \<^verbatim>\<open>undefined\<close>.

  \<^verbatim>\<open>Object.entries\<close> and \<^verbatim>\<open>for ... in\<close> enumerate the keys that are array indices first, in
  ascending order, and the other keys after them in the order of their creation.
  \<open>own_entries ix\<close> is that enumeration, \<open>ix\<close> telling which keys are array indices.
\<close>

definition own_entries :: "('k \<Rightarrow> nat option) \<Rightarrow> ('k \<times> 'v) list \<Rightarrow> ('k \<times> 'v) list" where
  "own_entries ix al =
     map snd (sort_key fst
       (List.map_filter (\<lambda>kv. map_option (\<lambda>n. (n, kv)) (ix (fst kv))) al))
     @ filter (\<lambda>kv. ix (fst kv) = None) al"

text \<open>A number is an array index when it is an integer from 0 to \<open>2\<^sup>3\<^sup>2 - 2\<close>.\<close>

definition int_index :: "int \<Rightarrow> nat option" where
  "int_index i = (if 0 \<le> i \<and> i < 2 ^ 32 - 1 then Some (nat i) else None)"

text \<open>
  A string is an array index when it is the canonical decimal numeral of one: digits only,
  no leading zero.
\<close>

definition digit_val :: "char \<Rightarrow> nat" where
  "digit_val c = (of_char c :: nat) - 48"

definition nat_of_digits :: "string \<Rightarrow> nat" where
  "nat_of_digits s = foldl (\<lambda>n c. 10 * n + digit_val c) 0 s"

definition string_index :: "string \<Rightarrow> nat option" where
  "string_index s =
     (if s \<noteq> [] \<and> list_all is_digit s \<and> (s = ''0'' \<or> hd s \<noteq> CHR ''0'')
         \<and> nat_of_digits s < 2 ^ 32 - 1
      then Some (nat_of_digits s) else None)"

subsection \<open>The data of the page\<close>

text \<open>
  One element of \<^verbatim>\<open>window.PRODUCTS_DATA\<close>. \<open>attributes\<close> and \<open>original_attributes\<close> are
  objects from attribute name to value.
\<close>

record product =
  original_index :: int
  description :: string
  price :: string
  attributes :: "(string \<times> string) list"
  original_description :: string
  original_price :: string
  original_attributes :: "(string \<times> string) list"
  image_filename :: "string option"

text \<open>
  The modal dialog as the save handler reads it: the text of \<^verbatim>\<open>#modalDescription\<close>, the text
  of \<^verbatim>\<open>#modalPrice\<close> (\<open>None\<close> when the page has no such element), and for every
  \<^verbatim>\<open>.modal-attribute-select\<close> its \<^verbatim>\<open>dataset.attrName\<close>, its \<^verbatim>\<open>value\<close> and the \<^verbatim>\<open>value\<close> of the
  \<^verbatim>\<open>.new-value-input\<close> beside it.
\<close>

record modal_row =
  row_attrName :: string
  row_select :: string
  row_input :: string

record modal_dom =
  modalDescription :: string
  modalPrice :: "string option"
  modalRows :: "modal_row list"
  modalDisplay :: string

text \<open>
  A \<^verbatim>\<open>.product\<close> element of the grid: its \<^verbatim>\<open>data-product-index\<close>, its other \<^verbatim>\<open>data-\<close>
  attributes (by the name after \<^verbatim>\<open>data-\<close>, in lower case, as an HTML document stores them),
  the text and the \<^verbatim>\<open>changed-attribute\<close> mark of its \<^verbatim>\<open>.grid-desc\<close> and \<^verbatim>\<open>.grid-price\<close> children
  (\<open>None\<close> when it has no such child), its \<^verbatim>\<open>.attribute-value\<close> spans and its
  \<^verbatim>\<open>style.display\<close>.
\<close>

record text_el =
  textContent :: string
  changed_attribute :: bool

record attr_span =
  span_attrName :: string
  span_text :: string
  span_currentValue :: string
  span_changed :: bool

record product_el =
  el_product_index :: int
  el_data :: "(string \<times> string) list"
  grid_desc :: "text_el option"
  grid_price :: "text_el option"
  attribute_values :: "attr_span list"
  display :: string

text \<open>
  A filter control (\<^verbatim>\<open>select.select2-filter\<close>): what jQuery's \<^verbatim>\<open>.val()\<close> reports for it
  (\<open>None\<close> for \<^verbatim>\<open>null\<close>) and its options, each with its value and its \<^verbatim>\<open>disabled\<close> property.
  The widget library is not part of the script: the model takes \<^verbatim>\<open>.val()\<close> as a component of
  the control that \<^verbatim>\<open>.val(x)\<close> overwrites.
\<close>

record select_option =
  opt_value :: string
  opt_disabled :: bool

record select_ctl =
  sel_val :: "string list option"
  sel_options :: "select_option list"

text \<open>
  The page: the \<^verbatim>\<open>.product\<close> elements in document order (they are the children of
  \<^verbatim>\<open>#product-grid\<close>), the attribute filters \<^verbatim>\<open>#filter-<key>\<close> by their key, and the flag filter
  \<^verbatim>\<open>#filter-retail\<close>, a control of its own.
\<close>

record page_dom =
  product_els :: "product_el list"
  attr_filters :: "(string \<times> select_ctl) list"
  retail_filter :: "select_ctl option"

text \<open>
  The state: the globals of the script, the DOM it works on, and the log of its effects.
  \<open>currentProductInModal\<close> refers to an element of \<open>PRODUCTS_DATA\<close>: the reference is the
  element's position, and an assignment through the reference changes the list there.
  A record id is an integer; as the key of \<open>pendingChanges\<close> it is its decimal numeral, which
  \<^verbatim>\<open>parseInt\<close> reads back as the same integer, so the model keeps the integer as the key.
  A request body is the list of its entries \<open>(original_index, attribute, newValue)\<close>.
\<close>

record state =
  PRODUCTS_DATA :: "product list"
  ALL_ATTRIBUTE_NAMES :: "string list"
  pendingChanges :: "(int \<times> (string \<times> string) list) list"
  currentProductInModal :: "nat option"
  modal :: modal_dom
  page :: page_dom
  alerts :: "string list"
  requests :: "(int \<times> string \<times> string) list list"
  reloads :: nat

datatype completion = Normal | TypeError

subsection \<open>Filtering: \<^verbatim>\<open>applyFilters\<close> and \<^verbatim>\<open>updateFilterOptions\<close>\<close>

definition lower_char :: "char \<Rightarrow> char" where
  "lower_char c =
     (case map_of (zip ''ABCDEFGHIJKLMNOPQRSTUVWXYZ'' ''abcdefghijklmnopqrstuvwxyz'') c of
        Some l \<Rightarrow> l
      | None \<Rightarrow> c)"

text \<open>
  \<^verbatim>\<open>product.getAttribute(`data-${key}`)\<close>: an HTML element looks the name up in lower case;
  \<open>None\<close> is \<^verbatim>\<open>null\<close>.
\<close>

definition getAttribute :: "product_el \<Rightarrow> string \<Rightarrow> string option" where
  "getAttribute product key = map_of (el_data product) (map lower_char key)"

definition setAttribute :: "string \<Rightarrow> string \<Rightarrow> product_el \<Rightarrow> product_el" where
  "setAttribute key v product =
     product\<lparr>el_data := AList.update (map lower_char key) v (el_data product)\<rparr>"

text \<open>\<^verbatim>\<open>$(sel).val() || []\<close>; a selector that finds no element gives \<^verbatim>\<open>undefined\<close>.\<close>

definition val_or_empty :: "select_ctl option \<Rightarrow> string list" where
  "val_or_empty c =
     (case c of
        None \<Rightarrow> []
      | Some ctl \<Rightarrow> (case sel_val ctl of None \<Rightarrow> [] | Some vs \<Rightarrow> vs))"

text \<open>
  The object \<^verbatim>\<open>filters\<close> that \<^verbatim>\<open>applyFilters\<close> builds first; \<open>add_filter\<close> is the body of its
  \<^verbatim>\<open>forEach\<close>.
\<close>

definition add_filter ::
  "page_dom \<Rightarrow> string \<Rightarrow> (string \<times> string list) list \<Rightarrow> (string \<times> string list) list" where
  "add_filter pg attr filters =
     (let key = sanitizeAttr attr
      in AList.update key (val_or_empty (map_of (attr_filters pg) key)) filters)"

definition build_filters :: "string list \<Rightarrow> page_dom \<Rightarrow> (string \<times> string list) list" where
  "build_filters names pg = fold (add_filter pg) names []"

text \<open>
  The loop \<^verbatim>\<open>for (let key in filters)\<close> over one product: \<open>False\<close> is the \<^verbatim>\<open>break\<close> with
  \<^verbatim>\<open>show = false\<close>. \<^verbatim>\<open>sel.includes(val)\<close> is false for \<^verbatim>\<open>null\<close>.
\<close>

fun filters_loop :: "(string \<times> string list) list \<Rightarrow> product_el \<Rightarrow> bool" where
  "filters_loop [] product = True"
| "filters_loop ((key, sel) # rest) product =
     (let v = getAttribute product key
      in if sel \<noteq> [] \<and> ''All'' \<notin> set sel \<and> \<not> (case v of None \<Rightarrow> False | Some x \<Rightarrow> x \<in> set sel)
         then False
         else filters_loop rest product)"

text \<open>\<^verbatim>\<open>product.getAttribute(`data-${d}`)?.toUpperCase() === 'TRUE'\<close>\<close>

definition flag_true :: "product_el \<Rightarrow> string \<Rightarrow> bool" where
  "flag_true product d =
     (case getAttribute product d of None \<Rightarrow> False | Some v \<Rightarrow> toUpperCase v = ''TRUE'')"

definition product_show :: "(string \<times> string list) list \<Rightarrow> string list \<Rightarrow> product_el \<Rightarrow> bool" where
  "product_show filters retailFilters product =
     (let show0 = filters_loop (own_entries string_index filters) product
      in if show0 \<and> retailFilters \<noteq> [] \<and> ''All'' \<notin> set retailFilters
         then list_ex (flag_true product) retailFilters
         else show0)"

text \<open>\<^verbatim>\<open>function updateFilterOptions()\<close>\<close>

definition visible_els :: "page_dom \<Rightarrow> product_el list" where
  "visible_els pg = filter (\<lambda>p. display p \<noteq> ''none'') (product_els pg)"

definition update_attr_option :: "product_el list \<Rightarrow> string \<Rightarrow> select_option \<Rightarrow> select_option" where
  "update_attr_option visible key opt =
     (let v = opt_value opt
      in if v = ''All'' then opt
         else opt\<lparr>opt_disabled := \<not> (Some v \<in> set (map (\<lambda>p. getAttribute p key) visible))\<rparr>)"

definition update_retail_option :: "product_el list \<Rightarrow> select_option \<Rightarrow> select_option" where
  "update_retail_option visible opt =
     (let v = opt_value opt
      in if v = ''All'' then opt
         else opt\<lparr>opt_disabled := \<not> list_ex (\<lambda>p. flag_true p v) visible\<rparr>)"

text \<open>The body of the \<^verbatim>\<open>forEach\<close> over the attribute names: the options of one control.\<close>

definition facet_attr :: "product_el list \<Rightarrow> string \<Rightarrow> page_dom \<Rightarrow> page_dom" where
  "facet_attr visible attr pg =
     (let key = sanitizeAttr attr
      in pg\<lparr>attr_filters :=
            AList.map_entry key
              (\<lambda>ctl. ctl\<lparr>sel_options := map (update_attr_option visible key) (sel_options ctl)\<rparr>)
              (attr_filters pg)\<rparr>)"

definition updateFilterOptions :: "string list \<Rightarrow> page_dom \<Rightarrow> page_dom" where
  "updateFilterOptions names pg =
     (let visible = visible_els pg;
          pg1 = fold (facet_attr visible) names pg
      in pg1\<lparr>retail_filter :=
           map_option
             (\<lambda>ctl. ctl\<lparr>sel_options := map (update_retail_option visible) (sel_options ctl)\<rparr>)
             (retail_filter pg1)\<rparr>)"

text \<open>\<^verbatim>\<open>function applyFilters()\<close>\<close>

definition applyFilters :: "string list \<Rightarrow> page_dom \<Rightarrow> page_dom" where
  "applyFilters names pg =
     (let filters = build_filters names pg;
          retailFilters = val_or_empty (retail_filter pg);
          pg1 = pg\<lparr>product_els :=
                  map (\<lambda>product.
                         product\<lparr>display :=
                           (if product_show filters retailFilters product then ''block'' else ''none'')\<rparr>)
                      (product_els pg)\<rparr>
      in updateFilterOptions names pg1)"

subsection \<open>Sorting: \<^verbatim>\<open>sortByField\<close>\<close>

text \<open>
  A JavaScript number as the comparator needs it: \<^verbatim>\<open>NaN\<close> or a value. The model keeps the
  exact decimal value of a numeral; the script's doubles round it, which can turn a strict
  comparison of two close values into a tie and nothing else.
\<close>

datatype number = NaN | Num rat

fun minus_number :: "number \<Rightarrow> number \<Rightarrow> number" where
  "minus_number (Num a) (Num b) = Num (a - b)"
| "minus_number a b = NaN"

fun neg_number :: "number \<Rightarrow> number" where
  "neg_number (Num a) = Num (- a)"
| "neg_number NaN = NaN"

text \<open>
  \<^verbatim>\<open>parseFloat\<close> on a text of digits and dots, which is all the script passes to it: the
  longest prefix that is a decimal numeral (digits, then a dot and digits, one of the two
  parts at least), and \<^verbatim>\<open>NaN\<close> when there is none.
\<close>

definition parseFloat :: "string \<Rightarrow> number" where
  "parseFloat s =
     (let ip = takeWhile is_digit s;
          rest = dropWhile is_digit s;
          fp = (case rest of [] \<Rightarrow> [] | c # cs \<Rightarrow> if c = CHR ''.'' then takeWhile is_digit cs else [])
      in if ip = [] \<and> fp = [] then NaN
         else Num (of_nat (nat_of_digits ip) + of_nat (nat_of_digits fp) / 10 ^ length fp))"

text \<open>\<^verbatim>\<open>pa ? parseFloat(pa.textContent.replace(/[^0-9.]/g, '')) : 0\<close>\<close>

definition price_number :: "product_el \<Rightarrow> number" where
  "price_number a =
     (case grid_price a of
        None \<Rightarrow> Num 0
      | Some pa \<Rightarrow> parseFloat (filter (\<lambda>c. c \<in> set ''0123456789.'') (textContent pa)))"

text \<open>
  The comparator that \<^verbatim>\<open>sortByField(field, dir)\<close> passes to \<^verbatim>\<open>sort\<close>. \<open>localeCompare\<close> is the
  browser's collation, a parameter of the model.
\<close>

definition sort_comparator ::
  "(string \<Rightarrow> string \<Rightarrow> int) \<Rightarrow> string \<Rightarrow> string \<Rightarrow> product_el \<Rightarrow> product_el \<Rightarrow> number" where
  "sort_comparator localeCompare field dir a b =
     (if field = ''price'' then
        (let aNum = price_number a; bNum = price_number b
         in if dir = ''asc'' then minus_number aNum bNum else minus_number bNum aNum)
      else
        (let aVal = (if field = ''description''
                     then (case grid_desc a of Some da \<Rightarrow> trim (textContent da) | None \<Rightarrow> [])
                     else (case getAttribute a field of Some v \<Rightarrow> v | None \<Rightarrow> []));
             bVal = (if field = ''description''
                     then (case grid_desc b of Some db \<Rightarrow> trim (textContent db) | None \<Rightarrow> [])
                     else (case getAttribute b field of Some v \<Rightarrow> v | None \<Rightarrow> []));
             cmp = Num (of_int (localeCompare aVal bVal))
         in if dir = ''asc'' then cmp else neg_number cmp))"

text \<open>
  \<^verbatim>\<open>Array.prototype.sort\<close> belongs to the browser. It reads a comparator result that is \<^verbatim>\<open>NaN\<close>
  as a tie, it is stable, and its result for a comparator that is not a consistent
  ordering is left to the implementation. The model is the stable insertion sort: each
  element in turn goes before the first element that it is strictly smaller than.
\<close>

definition strictly_before :: "number \<Rightarrow> bool" where
  "strictly_before v = (case v of NaN \<Rightarrow> False | Num x \<Rightarrow> x < 0)"

fun insert_sorted :: "('a \<Rightarrow> 'a \<Rightarrow> number) \<Rightarrow> 'a \<Rightarrow> 'a list \<Rightarrow> 'a list" where
  "insert_sorted cmp x [] = [x]"
| "insert_sorted cmp x (y # ys) =
     (if strictly_before (cmp x y) then x # y # ys else y # insert_sorted cmp x ys)"

definition array_sort :: "('a \<Rightarrow> 'a \<Rightarrow> number) \<Rightarrow> 'a list \<Rightarrow> 'a list" where
  "array_sort cmp items = foldl (\<lambda>sorted x. insert_sorted cmp x sorted) [] items"

text \<open>\<^verbatim>\<open>function sortByField(field, dir)\<close>: the children of the grid are put in sorted order.\<close>

definition sortByField ::
  "(string \<Rightarrow> string \<Rightarrow> int) \<Rightarrow> string \<Rightarrow> string \<Rightarrow> page_dom \<Rightarrow> page_dom" where
  "sortByField localeCompare field dir pg =
     pg\<lparr>product_els := array_sort (sort_comparator localeCompare field dir) (product_els pg)\<rparr>"

subsection \<open>The filter controls: the handlers of \<^verbatim>\<open>select2:select\<close> and \<^verbatim>\<open>select2:unselect\<close>\<close>

datatype filter_id = AttrFilter string | RetailFilter

definition get_ctl :: "filter_id \<Rightarrow> page_dom \<Rightarrow> select_ctl option" where
  "get_ctl this pg =
     (case this of AttrFilter key \<Rightarrow> map_of (attr_filters pg) key | RetailFilter \<Rightarrow> retail_filter pg)"

text \<open>\<^verbatim>\<open>$sel.val(vals)\<close>\<close>

definition set_val :: "filter_id \<Rightarrow> string list \<Rightarrow> page_dom \<Rightarrow> page_dom" where
  "set_val this vals pg =
     (case this of
        AttrFilter key \<Rightarrow>
          pg\<lparr>attr_filters := AList.map_entry key (\<lambda>ctl. ctl\<lparr>sel_val := Some vals\<rparr>) (attr_filters pg)\<rparr>
      | RetailFilter \<Rightarrow>
          pg\<lparr>retail_filter := map_option (\<lambda>ctl. ctl\<lparr>sel_val := Some vals\<rparr>) (retail_filter pg)\<rparr>)"

text \<open>
  The handler of \<^verbatim>\<open>select2:select\<close> on the control \<open>this\<close>, \<open>picked\<close> being \<^verbatim>\<open>e.params.data.id\<close>.
  \<^verbatim>\<open>.trigger('change')\<close> runs \<^verbatim>\<open>applyFilters\<close>, the handler of \<^verbatim>\<open>change\<close>.
\<close>

definition select2_select :: "string list \<Rightarrow> filter_id \<Rightarrow> string \<Rightarrow> page_dom \<Rightarrow> page_dom" where
  "select2_select names this picked pg =
     (let vals = val_or_empty (get_ctl this pg)
      in if picked = ''All''
         then applyFilters names (set_val this [''All''] pg)
         else applyFilters names (set_val this (filter (\<lambda>v. v \<noteq> ''All'') vals) pg))"

definition select2_unselect :: "string list \<Rightarrow> filter_id \<Rightarrow> page_dom \<Rightarrow> page_dom" where
  "select2_unselect names this pg =
     (let vals = val_or_empty (get_ctl this pg)
      in if length vals = 0
         then applyFilters names (set_val this [''All''] pg)
         else pg)"

text \<open>
  What the widget does before it fires the event is the library's part: picking an option
  adds its value to the control's value, unpicking removes it. A filter event is the
  widget's step followed by the script's handler.
\<close>

datatype filter_event = Pick filter_id string | Unpick filter_id string

definition widget_pick :: "filter_id \<Rightarrow> string \<Rightarrow> page_dom \<Rightarrow> page_dom" where
  "widget_pick this v pg =
     (let vals = val_or_empty (get_ctl this pg)
      in set_val this (if v \<in> set vals then vals else vals @ [v]) pg)"

definition widget_unpick :: "filter_id \<Rightarrow> string \<Rightarrow> page_dom \<Rightarrow> page_dom" where
  "widget_unpick this v pg = set_val this (removeAll v (val_or_empty (get_ctl this pg))) pg"

fun filter_step :: "string list \<Rightarrow> filter_event \<Rightarrow> page_dom \<Rightarrow> page_dom" where
  "filter_step names (Pick this v) pg = select2_select names this v (widget_pick this v pg)"
| "filter_step names (Unpick this v) pg = select2_unselect names this (widget_unpick this v pg)"


subsection \<open>Editing: the grid refresh and the handler of \<^verbatim>\<open>Save Changes\<close>\<close>

text \<open>\<^verbatim>\<open>String(v)\<close> for a value that is a string or \<^verbatim>\<open>undefined\<close>.\<close>

definition js_string :: "string option \<Rightarrow> string" where
  "js_string v = (case v of None \<Rightarrow> ''undefined'' | Some x \<Rightarrow> x)"

text \<open>
  The body of the \<^verbatim>\<open>forEach\<close> over the \<^verbatim>\<open>.attribute-value\<close> spans of
  \<^verbatim>\<open>updateMainGridView\<close>: what it does to the span, and what it does to the product element.
  (A text content set to \<^verbatim>\<open>undefined\<close> is the empty text.)
\<close>

definition refresh_span :: "product \<Rightarrow> attr_span \<Rightarrow> attr_span" where
  "refresh_span data sp =
     (let attrName = span_attrName sp;
          newVal = map_of (attributes data) attrName;
          originalVal = map_of (original_attributes data) attrName
      in sp\<lparr>span_text := (case newVal of None \<Rightarrow> [] | Some v \<Rightarrow> v),
              span_currentValue := js_string newVal,
              span_changed := (newVal \<noteq> originalVal)\<rparr>)"

definition refresh_el :: "product \<Rightarrow> product_el \<Rightarrow> product_el" where
  "refresh_el data el =
     (let el1 = el\<lparr>grid_desc :=
                   map_option
                     (\<lambda>descEl. descEl\<lparr>textContent := description data,
                                      changed_attribute := (description data \<noteq> original_description data)\<rparr>)
                     (grid_desc el)\<rparr>;
          el2 = el1\<lparr>grid_price :=
                   map_option
                     (\<lambda>priceEl. priceEl\<lparr>textContent := ''$'' @ price data,
                                        changed_attribute := (price data \<noteq> original_price data)\<rparr>)
                     (grid_price el1)\<rparr>;
          el3 = fold (\<lambda>sp e.
                        setAttribute (sanitizeAttr (span_attrName sp))
                          (js_string (map_of (attributes data) (span_attrName sp))) e)
                     (attribute_values el2) el2
      in el3\<lparr>attribute_values := map (refresh_span data) (attribute_values el3)\<rparr>)"

text \<open>Replace the first element that satisfies \<open>P\<close>.\<close>

fun map_first :: "('a \<Rightarrow> bool) \<Rightarrow> ('a \<Rightarrow> 'a) \<Rightarrow> 'a list \<Rightarrow> 'a list" where
  "map_first P f [] = []"
| "map_first P f (x # xs) = (if P x then f x # xs else x # map_first P f xs)"

text \<open>
  \<^verbatim>\<open>function updateMainGridView(productOriginalIndex)\<close>. When the page has the element but
  \<^verbatim>\<open>PRODUCTS_DATA\<close> has no such product, the first read of \<^verbatim>\<open>data\<close> throws, before anything is
  changed; an element without description, price and spans reads nothing of \<^verbatim>\<open>data\<close>.
\<close>

definition updateMainGridView :: "int \<Rightarrow> state \<Rightarrow> completion \<times> state" where
  "updateMainGridView productOriginalIndex s =
     (case find (\<lambda>e. el_product_index e = productOriginalIndex) (product_els (page s)) of
        None \<Rightarrow> (Normal, s)
      | Some el \<Rightarrow>
          (case find (\<lambda>p. original_index p = productOriginalIndex) (PRODUCTS_DATA s) of
             None \<Rightarrow>
               if grid_desc el = None \<and> grid_price el = None \<and> attribute_values el = []
               then (Normal, s\<lparr>page := applyFilters (ALL_ATTRIBUTE_NAMES s) (page s)\<rparr>)
               else (TypeError, s)
           | Some data \<Rightarrow>
               (Normal,
                s\<lparr>page :=
                    applyFilters (ALL_ATTRIBUTE_NAMES s)
                      ((page s)\<lparr>product_els :=
                          map_first (\<lambda>e. el_product_index e = productOriginalIndex)
                            (refresh_el data) (product_els (page s))\<rparr>)\<rparr>)))"

text \<open>
  The three parts of the save handler. Each compares the entered value with the value the
  product holds now and, when they differ, stores the entered value in
  \<^verbatim>\<open>pendingChanges[idx]\<close> and in the product. \<open>ref\<close> is \<^verbatim>\<open>currentProductInModal\<close>.
\<close>

definition set_pending :: "int \<Rightarrow> string \<Rightarrow> string \<Rightarrow> state \<Rightarrow> state" where
  "set_pending idx field v s =
     s\<lparr>pendingChanges := AList.map_entry idx (AList.update field v) (pendingChanges s)\<rparr>"

definition update_product :: "nat \<Rightarrow> (product \<Rightarrow> product) \<Rightarrow> state \<Rightarrow> state" where
  "update_product ref f s = s\<lparr>PRODUCTS_DATA := (PRODUCTS_DATA s)[ref := f (PRODUCTS_DATA s ! ref)]\<rparr>"

definition save_description :: "nat \<Rightarrow> int \<Rightarrow> state \<Rightarrow> state" where
  "save_description ref idx s =
     (let newDesc = trim (modalDescription (modal s))
      in if newDesc \<noteq> description (PRODUCTS_DATA s ! ref)
         then update_product ref (\<lambda>p. p\<lparr>description := newDesc\<rparr>)
                (set_pending idx ''description'' newDesc s)
         else s)"

definition save_price :: "nat \<Rightarrow> int \<Rightarrow> state \<Rightarrow> state" where
  "save_price ref idx s =
     (case modalPrice (modal s) of
        None \<Rightarrow> s
      | Some priceText \<Rightarrow>
          (let newPrice = trim priceText
           in if newPrice \<noteq> price (PRODUCTS_DATA s ! ref)
              then update_product ref (\<lambda>p. p\<lparr>price := newPrice\<rparr>)
                     (set_pending idx ''price'' (strip_dollar newPrice) s)
              else s))"

text \<open>
  \<^verbatim>\<open>rawNew\<close>: the text of the input when the select shows the custom choice, the select's
  value otherwise.
\<close>

definition row_value :: "modal_row \<Rightarrow> string" where
  "row_value row =
     (if row_select row = ''__NEW_VALUE__'' then trim (row_input row) else row_select row)"

definition save_attribute :: "nat \<Rightarrow> int \<Rightarrow> modal_row \<Rightarrow> state \<Rightarrow> state" where
  "save_attribute ref idx row s =
     (let attr = row_attrName row;
          rawNew = row_value row
      in if Some rawNew \<noteq> map_of (attributes (PRODUCTS_DATA s ! ref)) attr
         then set_pending idx attr rawNew
                (update_product ref (\<lambda>p. p\<lparr>attributes := AList.update attr rawNew (attributes p)\<rparr>) s)
         else s)"

definition invalid_price_message :: string where
  "invalid_price_message = ''Please enter a valid price (numbers only, with optional decimal).''"

text \<open>
  The click handler of \<^verbatim>\<open>#saveModalChanges\<close>. \<open>init_pending\<close> is
  \<^verbatim>\<open>pendingChanges[idx] = pendingChanges[idx] || {}\<close>, \<open>record_edits\<close> the three parts after the
  price validation. Reading the text of a missing \<^verbatim>\<open>#modalPrice\<close> throws. The modal is hidden
  only when \<^verbatim>\<open>updateMainGridView\<close> has returned.
\<close>

text \<open>
  The test of the price validation, \<^verbatim>\<open>rawPrice && !/^\d+(\.\d+)?$/.test(rawPrice)\<close>: the save is
  refused.
\<close>

definition price_rejected :: "string \<Rightarrow> bool" where
  "price_rejected priceText =
     (let rawPrice = trim priceText
      in rawPrice \<noteq> [] \<and> \<not> regex_test price_regex rawPrice)"

definition init_pending :: "int \<Rightarrow> state \<Rightarrow> state" where
  "init_pending idx s =
     s\<lparr>pendingChanges :=
         AList.update idx
           (case map_of (pendingChanges s) idx of Some attrs \<Rightarrow> attrs | None \<Rightarrow> [])
           (pendingChanges s)\<rparr>"

definition record_edits :: "nat \<Rightarrow> int \<Rightarrow> state \<Rightarrow> state" where
  "record_edits ref idx s1 =
     (let s2 = save_description ref idx s1;
          s3 = save_price ref idx s2
      in fold (save_attribute ref idx) (modalRows (modal s3)) s3)"

definition saveBtn_click :: "state \<Rightarrow> completion \<times> state" where
  "saveBtn_click s =
     (case currentProductInModal s of
        None \<Rightarrow> (Normal, s)
      | Some ref \<Rightarrow>
          (let idx = original_index (PRODUCTS_DATA s ! ref);
               s1 = init_pending idx s
           in case modalPrice (modal s1) of
                None \<Rightarrow> (TypeError, s1)
              | Some priceText \<Rightarrow>
                  if price_rejected priceText
                  then (Normal, s1\<lparr>alerts := alerts s1 @ [invalid_price_message]\<rparr>)
                  else
                    (case updateMainGridView idx (record_edits ref idx s1) of
                       (TypeError, s5) \<Rightarrow> (TypeError, s5)
                     | (Normal, s5) \<Rightarrow>
                         (Normal, s5\<lparr>modal := (modal s5)\<lparr>modalDisplay := ''none''\<rparr>\<rparr>))))"

text \<open>\<^verbatim>\<open>pendingChanges[idx]?.[field]\<close>: the pending value of a field of a record, if any.\<close>

definition pending_entry :: "state \<Rightarrow> int \<Rightarrow> string \<Rightarrow> string option" where
  "pending_entry s idx field =
     (case map_of (pendingChanges s) idx of None \<Rightarrow> None | Some attrs \<Rightarrow> map_of attrs field)"

subsection \<open>Committing: the handler of \<^verbatim>\<open>Apply Changes\<close>\<close>

text \<open>
  \<^verbatim>\<open>changesToSend\<close>: the entries of \<^verbatim>\<open>pendingChanges\<close>, and for each of them the entries of its
  object, as \<open>(original_index, attribute, newValue)\<close>.
\<close>

definition changesToSend :: "(int \<times> (string \<times> string) list) list \<Rightarrow> (int \<times> string \<times> string) list" where
  "changesToSend pending =
     concat (map (\<lambda>(idx, attrs). map (\<lambda>(attr, v). (idx, attr, v)) (own_entries string_index attrs))
                 (own_entries int_index pending))"

text \<open>
  The click handler of \<^verbatim>\<open>#applyChangesBtn\<close>: either the alert, or the request to
  \<^verbatim>\<open>/update_attributes\<close> with \<^verbatim>\<open>changesToSend\<close> as its body.
\<close>

definition applyChangesBtn_click :: "state \<Rightarrow> state" where
  "applyChangesBtn_click s =
     (let toSend = changesToSend (pendingChanges s)
      in if length toSend = 0
         then s\<lparr>alerts := alerts s @ [''No changes to apply!'']\<rparr>
         else s\<lparr>requests := requests s @ [toSend]\<rparr>)"

text \<open>
  How the request ends: the response parsed as JSON, with its \<^verbatim>\<open>success\<close> and \<^verbatim>\<open>message\<close>
  (\<open>None\<close> when the response has none), or a rejection (the request failed, or the
  response was no JSON) with the text of the error.
\<close>

datatype response = Resolved bool "string option" | Rejected string

text \<open>
  The success message starts with the check mark U+2705, written here in UTF-8. (The
  handler also sets \<^verbatim>\<open>isNavigating\<close>, a variable of another script, before it reloads the
  page.)
\<close>

definition success_message :: string where
  "success_message = [CHR 0xE2, CHR 0x9C, CHR 0x85] @ '' Changes have been applied successfully.''"

text \<open>The handlers of \<^verbatim>\<open>.then(data => ...)\<close> and \<^verbatim>\<open>.catch(err => ...)\<close>.\<close>

fun on_response :: "response \<Rightarrow> state \<Rightarrow> state" where
  "on_response (Resolved success msg) s =
     (if success
      then s\<lparr>alerts := alerts s @ [success_message], reloads := reloads s + 1\<rparr>
      else s\<lparr>alerts := alerts s @ [''Error: '' @ js_string msg]\<rparr>)"
| "on_response (Rejected err) s =
     s\<lparr>alerts := alerts s @ [''Request failed: '' @ err]\<rparr>"

text \<open>\<^verbatim>\<open>pendingChanges[idx]\<close> is an object.\<close>

definition has_object :: "state \<Rightarrow> int \<Rightarrow> bool" where
  "has_object s idx \<longleftrightarrow> map_of (pendingChanges s) idx \<noteq> None"

text \<open>What the attribute part of a save does to the attributes of the product, row by row.\<close>

definition attr_step :: "modal_row \<Rightarrow> (string \<times> string) list \<Rightarrow> (string \<times> string) list" where
  "attr_step row attrs =
     (if Some (row_value row) \<noteq> map_of attrs (row_attrName row)
      then AList.update (row_attrName row) (row_value row) attrs else attrs)"

text \<open>An object has no key twice; \<^verbatim>\<open>pendingChanges\<close> is an object of objects.\<close>

definition pending_wf :: "(int \<times> (string \<times> string) list) list \<Rightarrow> bool" where
  "pending_wf pending \<longleftrightarrow>
     distinct (map fst pending) \<and> (\<forall>entry \<in> set pending. distinct (map fst (snd entry)))"

text \<open>The entry of a control: what \<^verbatim>\<open>.val() || []\<close> gives for it.\<close>

definition filter_entry :: "page_dom \<Rightarrow> filter_id \<Rightarrow> string list" where
  "filter_entry pg this = val_or_empty (get_ctl this pg)"

text \<open>
  The invariant of a filter entry in the specification: the entry is not empty, and the
  token \<open>All\<close> excludes every other token. \<open>entries_ok\<close>: it holds of every control of the
  page.
\<close>

definition entry_ok :: "string list \<Rightarrow> bool" where
  "entry_ok sel \<longleftrightarrow> sel \<noteq> [] \<and> (''All'' \<in> set sel \<longrightarrow> set sel = {''All''})"


text \<open>The filters that \<^verbatim>\<open>applyFilters\<close> reads, and whether it shows a product.\<close>

definition attr_entry :: "page_dom \<Rightarrow> string \<Rightarrow> string list" where
  "attr_entry pg key = val_or_empty (map_of (attr_filters pg) key)"

definition flag_entry :: "page_dom \<Rightarrow> string list" where
  "flag_entry pg = val_or_empty (retail_filter pg)"

definition shown :: "string list \<Rightarrow> page_dom \<Rightarrow> product_el \<Rightarrow> bool" where
  "shown names pg product = product_show (build_filters names pg) (flag_entry pg) product"

text \<open>The test of the loop over the filters: the entry \<open>sel\<close> lets a product pass.\<close>

definition passes :: "product_el \<Rightarrow> string \<Rightarrow> string list \<Rightarrow> bool" where
  "passes product key sel \<longleftrightarrow>
     sel = [] \<or> ''All'' \<in> set sel \<or> (\<exists>v. getAttribute product key = Some v \<and> v \<in> set sel)"

text \<open>What \<^verbatim>\<open>updateFilterOptions\<close> does to one attribute control.\<close>

definition facet :: "product_el list \<Rightarrow> string \<Rightarrow> select_ctl \<Rightarrow> select_ctl" where
  "facet vis key ctl = ctl\<lparr>sel_options := map (update_attr_option vis key) (sel_options ctl)\<rparr>"

text \<open>The first half of \<^verbatim>\<open>applyFilters\<close>: the display of every product is set.\<close>

definition hide :: "string list \<Rightarrow> page_dom \<Rightarrow> page_dom" where
  "hide names pg = pg\<lparr>product_els :=
      map (\<lambda>product. product\<lparr>display := (if shown names pg product then ''block'' else ''none'')\<rparr>)
        (product_els pg)\<rparr>"

text \<open>The options of a control, none when the page has no such control.\<close>

definition attr_options :: "page_dom \<Rightarrow> string \<Rightarrow> select_option list" where
  "attr_options pg key = (case map_of (attr_filters pg) key of None \<Rightarrow> [] | Some ctl \<Rightarrow> sel_options ctl)"

definition flag_options :: "page_dom \<Rightarrow> select_option list" where
  "flag_options pg = (case retail_filter pg of None \<Rightarrow> [] | Some ctl \<Rightarrow> sel_options ctl)"

subsection \<open>A small catalogue\<close>

text \<open>
  One product, a mug with one attribute, its element in the grid, and the filter controls
  of the attribute and of the flags. \<open>editing desc priceText colour\<close> is the page with the
  mug open in the modal, the operator having entered the three values.
\<close>

definition mug :: product where
  "mug = \<lparr>original_index = 7, description = ''Mug'', price = ''10'',
           attributes = [(''ATT Color'', ''Red'')],
           original_description = ''Mug'', original_price = ''10'',
           original_attributes = [(''ATT Color'', ''Red'')],
           image_filename = None\<rparr>"

definition mug_el :: product_el where
  "mug_el = \<lparr>el_product_index = 7,
              el_data = [(''att_color'', ''Red''), (''retail_web'', ''true'')],
              grid_desc = Some \<lparr>textContent = ''Mug'', changed_attribute = False\<rparr>,
              grid_price = Some \<lparr>textContent = ''$10'', changed_attribute = False\<rparr>,
              attribute_values = [\<lparr>span_attrName = ''ATT Color'', span_text = ''Red'',
                                   span_currentValue = ''Red'', span_changed = False\<rparr>],
              display = ''block''\<rparr>"

definition all_selected :: "string list \<Rightarrow> select_ctl" where
  "all_selected vs =
     \<lparr>sel_val = Some [''All''],
      sel_options = map (\<lambda>v. \<lparr>opt_value = v, opt_disabled = False\<rparr>) (''All'' # vs)\<rparr>"

definition mug_page :: page_dom where
  "mug_page = \<lparr>product_els = [mug_el],
                attr_filters = [(''ATT_Color'', all_selected [''Blue'', ''Red''])],
                retail_filter = Some (all_selected [''retail_web''])\<rparr>"

definition editing :: "string \<Rightarrow> string \<Rightarrow> string \<Rightarrow> state" where
  "editing desc priceText colour =
     \<lparr>PRODUCTS_DATA = [mug], ALL_ATTRIBUTE_NAMES = [''ATT Color''], pendingChanges = [],
      currentProductInModal = Some 0,
      modal = \<lparr>modalDescription = desc, modalPrice = Some priceText,
                modalRows = [\<lparr>row_attrName = ''ATT Color'', row_select = colour, row_input = []\<rparr>],
                modalDisplay = ''block''\<rparr>,
      page = mug_page, alerts = [], requests = [], reloads = 0\<rparr>"

text \<open>
  A second product, a blue jar that is not sold on the web, and the page with both products
  on which the operator has picked \<open>Red\<close> in the filter of the colour.
\<close>

definition jar_el :: product_el where
  "jar_el = \<lparr>el_product_index = 8,
              el_data = [(''att_color'', ''Blue''), (''retail_web'', ''FALSE'')],
              grid_desc = Some \<lparr>textContent = ''Jar'', changed_attribute = False\<rparr>,
              grid_price = Some \<lparr>textContent = ''$2'', changed_attribute = False\<rparr>,
              attribute_values = [\<lparr>span_attrName = ''ATT Color'', span_text = ''Blue'',
                                   span_currentValue = ''Blue'', span_changed = False\<rparr>],
              display = ''block''\<rparr>"

definition red_page :: page_dom where
  "red_page = \<lparr>product_els = [mug_el, jar_el],
                attr_filters = [(''ATT_Color'', (all_selected [''Blue'', ''Red''])\<lparr>sel_val := Some [''Red'']\<rparr>)],
                retail_filter = Some (all_selected [''retail_web''])\<rparr>"

text \<open>
  A grid of three products whose price texts are \<open>$10\<close>, \<open>$2\<close> and \<open>abc\<close>, in this order.
\<close>

definition priced :: "int \<Rightarrow> string \<Rightarrow> product_el" where
  "priced i priceText =
     \<lparr>el_product_index = i, el_data = [],
      grid_desc = None,
      grid_price = Some \<lparr>textContent = priceText, changed_attribute = False\<rparr>,
      attribute_values = [], display = ''block''\<rparr>"

definition price_page :: page_dom where
  "price_page = \<lparr>product_els = [priced 1 ''$10'', priced 2 ''$2'', priced 3 ''abc''],
                  attr_filters = [], retail_filter = None\<rparr>"

text \<open>
  \<open>reopened desc priceText colour s\<close>: the operator opens the mug again in the state \<open>s\<close> and
  enters the three values.
\<close>

definition reopened :: "string \<Rightarrow> string \<Rightarrow> string \<Rightarrow> state \<Rightarrow> state" where
  "reopened desc priceText colour s =
     s\<lparr>currentProductInModal := Some 0,
       modal := \<lparr>modalDescription = desc, modalPrice = Some priceText,
                 modalRows = [\<lparr>row_attrName = ''ATT Color'', row_select = colour, row_input = []\<rparr>],
                 modalDisplay = ''block''\<rparr>\<rparr>"

text \<open>
  Two saves in a row: the operator changes the description of the mug to \<open>Cup\<close> and saves,
  then opens the mug again, changes the description back to \<open>Mug\<close> and saves.
\<close>

definition cup_saved :: state where
  "cup_saved = snd (saveBtn_click (editing ''Cup'' ''10'' ''Red''))"

definition cup_then_mug :: state where
  "cup_then_mug = snd (saveBtn_click (reopened ''Mug'' ''10'' ''Red'' cup_saved))"

text \<open>
  The price pattern in the words of the specification: one or more digits, optionally
  followed by a single decimal point and one or more fractional digits.
\<close>

definition numeric_pattern :: "string \<Rightarrow> bool" where
  "numeric_pattern s \<longleftrightarrow>
     (\<exists>ds. ds \<noteq> [] \<and> list_all is_digit ds \<and>
        (s = ds \<or> (\<exists>fs. fs \<noteq> [] \<and> list_all is_digit fs \<and> s = ds @ ''.'' @ fs)))"

section \<open>Lemmas\<close>

subsection \<open>The parts of a save\<close>

lemma set_pending_frame [simp]:
  "PRODUCTS_DATA (set_pending idx f v s) = PRODUCTS_DATA s"
  "ALL_ATTRIBUTE_NAMES (set_pending idx f v s) = ALL_ATTRIBUTE_NAMES s"
  "currentProductInModal (set_pending idx f v s) = currentProductInModal s"
  "modal (set_pending idx f v s) = modal s"
  "page (set_pending idx f v s) = page s"
  "alerts (set_pending idx f v s) = alerts s"
  "requests (set_pending idx f v s) = requests s"
  "reloads (set_pending idx f v s) = reloads s"
  by (simp_all add: set_pending_def)

lemma update_product_frame [simp]:
  "pendingChanges (update_product ref g s) = pendingChanges s"
  "ALL_ATTRIBUTE_NAMES (update_product ref g s) = ALL_ATTRIBUTE_NAMES s"
  "currentProductInModal (update_product ref g s) = currentProductInModal s"
  "modal (update_product ref g s) = modal s"
  "page (update_product ref g s) = page s"
  "alerts (update_product ref g s) = alerts s"
  "requests (update_product ref g s) = requests s"
  "reloads (update_product ref g s) = reloads s"
  by (simp_all add: update_product_def)

lemma init_pending_frame [simp]:
  "PRODUCTS_DATA (init_pending idx s) = PRODUCTS_DATA s"
  "ALL_ATTRIBUTE_NAMES (init_pending idx s) = ALL_ATTRIBUTE_NAMES s"
  "currentProductInModal (init_pending idx s) = currentProductInModal s"
  "modal (init_pending idx s) = modal s"
  "page (init_pending idx s) = page s"
  "alerts (init_pending idx s) = alerts s"
  "requests (init_pending idx s) = requests s"
  "reloads (init_pending idx s) = reloads s"
  by (simp_all add: init_pending_def)

lemma pending_entry_init [simp]:
  "pending_entry (init_pending idx s) i f = pending_entry s i f"
  by (simp add: pending_entry_def init_pending_def update_conv' split: option.splits)

lemma init_pending_defined [simp]: "has_object (init_pending idx s) idx"
  by (simp add: has_object_def init_pending_def update_conv')

lemma pending_entry_set_pending:
  "pending_entry (set_pending idx f v s) i g =
     (if i = idx \<and> g = f \<and> has_object s idx then Some v else pending_entry s i g)"
  by (auto simp: has_object_def pending_entry_def set_pending_def map_of_map_entry update_conv' split: option.splits)

lemma set_pending_defined [simp]:
  "has_object (set_pending idx f v s) i \<longleftrightarrow> has_object s i"
  by (auto simp: has_object_def set_pending_def map_of_map_entry split: option.splits)

lemma update_product_defined [simp]:
  "has_object (update_product ref g s) i \<longleftrightarrow> has_object s i"
  by (simp add: has_object_def)

lemma PRODUCTS_DATA_update_product:
  "PRODUCTS_DATA (update_product ref g s) = (PRODUCTS_DATA s)[ref := g (PRODUCTS_DATA s ! ref)]"
  by (simp add: update_product_def)


lemma save_description_frame [simp]:
  "ALL_ATTRIBUTE_NAMES (save_description ref idx s) = ALL_ATTRIBUTE_NAMES s"
  "currentProductInModal (save_description ref idx s) = currentProductInModal s"
  "modal (save_description ref idx s) = modal s"
  "page (save_description ref idx s) = page s"
  "alerts (save_description ref idx s) = alerts s"
  "requests (save_description ref idx s) = requests s"
  "reloads (save_description ref idx s) = reloads s"
  by (simp_all add: save_description_def Let_def)

lemma save_price_frame [simp]:
  "ALL_ATTRIBUTE_NAMES (save_price ref idx s) = ALL_ATTRIBUTE_NAMES s"
  "currentProductInModal (save_price ref idx s) = currentProductInModal s"
  "modal (save_price ref idx s) = modal s"
  "page (save_price ref idx s) = page s"
  "alerts (save_price ref idx s) = alerts s"
  "requests (save_price ref idx s) = requests s"
  "reloads (save_price ref idx s) = reloads s"
  by (simp_all add: save_price_def Let_def split: option.splits)

lemma save_attribute_frame [simp]:
  "ALL_ATTRIBUTE_NAMES (save_attribute ref idx row s) = ALL_ATTRIBUTE_NAMES s"
  "currentProductInModal (save_attribute ref idx row s) = currentProductInModal s"
  "modal (save_attribute ref idx row s) = modal s"
  "page (save_attribute ref idx row s) = page s"
  "alerts (save_attribute ref idx row s) = alerts s"
  "requests (save_attribute ref idx row s) = requests s"
  "reloads (save_attribute ref idx row s) = reloads s"
  by (simp_all add: save_attribute_def Let_def)

lemma fold_save_attribute_frame [simp]:
  "ALL_ATTRIBUTE_NAMES (fold (save_attribute ref idx) rows s) = ALL_ATTRIBUTE_NAMES s"
  "currentProductInModal (fold (save_attribute ref idx) rows s) = currentProductInModal s"
  "modal (fold (save_attribute ref idx) rows s) = modal s"
  "page (fold (save_attribute ref idx) rows s) = page s"
  "alerts (fold (save_attribute ref idx) rows s) = alerts s"
  "requests (fold (save_attribute ref idx) rows s) = requests s"
  "reloads (fold (save_attribute ref idx) rows s) = reloads s"
  by (induction rows arbitrary: s; simp)+

lemma record_edits_frame [simp]:
  "ALL_ATTRIBUTE_NAMES (record_edits ref idx s) = ALL_ATTRIBUTE_NAMES s"
  "currentProductInModal (record_edits ref idx s) = currentProductInModal s"
  "modal (record_edits ref idx s) = modal s"
  "page (record_edits ref idx s) = page s"
  "alerts (record_edits ref idx s) = alerts s"
  "requests (record_edits ref idx s) = requests s"
  "reloads (record_edits ref idx s) = reloads s"
  by (simp_all add: record_edits_def Let_def)

text \<open>What the parts do to the product list.\<close>

lemma save_description_data:
  "PRODUCTS_DATA (save_description ref idx s) =
     (PRODUCTS_DATA s)[ref := (PRODUCTS_DATA s ! ref)\<lparr>description := trim (modalDescription (modal s))\<rparr>]"
  by (simp add: save_description_def Let_def PRODUCTS_DATA_update_product)

lemma save_price_data:
  "modalPrice (modal s) = Some t \<Longrightarrow>
   PRODUCTS_DATA (save_price ref idx s) =
     (PRODUCTS_DATA s)[ref := (PRODUCTS_DATA s ! ref)\<lparr>price := trim t\<rparr>]"
  by (simp add: save_price_def Let_def PRODUCTS_DATA_update_product)


lemma save_attribute_data:
  "PRODUCTS_DATA (save_attribute ref idx row s) =
     (PRODUCTS_DATA s)[ref := (PRODUCTS_DATA s ! ref)
        \<lparr>attributes := attr_step row (attributes (PRODUCTS_DATA s ! ref))\<rparr>]"
  by (simp add: save_attribute_def Let_def PRODUCTS_DATA_update_product attr_step_def)

lemma fold_save_attribute_data:
  "ref < length (PRODUCTS_DATA s) \<Longrightarrow>
   PRODUCTS_DATA (fold (save_attribute ref idx) rows s) =
     (PRODUCTS_DATA s)[ref := (PRODUCTS_DATA s ! ref)
        \<lparr>attributes := fold attr_step rows (attributes (PRODUCTS_DATA s ! ref))\<rparr>]"
proof (induction rows arbitrary: s)
  case Nil
  then show ?case by simp
next
  case (Cons row rows)
  let ?s = "save_attribute ref idx row s"
  have len: "ref < length (PRODUCTS_DATA ?s)"
    using Cons.prems by (simp add: save_attribute_data)
  show ?case
    using Cons.prems by (simp add: Cons.IH [OF len]) (simp add: save_attribute_data)
qed

lemma record_edits_data:
  assumes "ref < length (PRODUCTS_DATA s)" and "modalPrice (modal s) = Some t"
  shows "PRODUCTS_DATA (record_edits ref idx s) =
     (PRODUCTS_DATA s)[ref := (PRODUCTS_DATA s ! ref)
        \<lparr>description := trim (modalDescription (modal s)),
         price := trim t,
         attributes := fold attr_step (modalRows (modal s)) (attributes (PRODUCTS_DATA s ! ref))\<rparr>]"
proof -
  let ?s2 = "save_description ref idx s"
  let ?s3 = "save_price ref idx ?s2"
  have l2: "ref < length (PRODUCTS_DATA ?s2)" using assms(1) by (simp add: save_description_data)
  have m2: "modalPrice (modal ?s2) = Some t" using assms(2) by simp
  have l3: "ref < length (PRODUCTS_DATA ?s3)" using l2 by (simp add: save_price_data [OF m2])
  show ?thesis
    unfolding record_edits_def Let_def
    using assms(1)
    by (simp add: fold_save_attribute_data [OF l3] save_price_data [OF m2] save_description_data)
qed


lemma updateMainGridView_frame [simp]:
  "PRODUCTS_DATA (snd (updateMainGridView i s)) = PRODUCTS_DATA s"
  "ALL_ATTRIBUTE_NAMES (snd (updateMainGridView i s)) = ALL_ATTRIBUTE_NAMES s"
  "pendingChanges (snd (updateMainGridView i s)) = pendingChanges s"
  "currentProductInModal (snd (updateMainGridView i s)) = currentProductInModal s"
  "modal (snd (updateMainGridView i s)) = modal s"
  "alerts (snd (updateMainGridView i s)) = alerts s"
  "requests (snd (updateMainGridView i s)) = requests s"
  "reloads (snd (updateMainGridView i s)) = reloads s"
  by (simp_all add: updateMainGridView_def split: option.splits)

lemma pending_entry_cong_pending:
  "pendingChanges s = pendingChanges s' \<Longrightarrow> pending_entry s i f = pending_entry s' i f"
  by (simp add: pending_entry_def)

text \<open>The two ways a save with a price element ends.\<close>


lemma save_rejected:
  assumes "currentProductInModal s = Some ref" and "modalPrice (modal s) = Some t"
    and "price_rejected t"
  shows "saveBtn_click s =
     (Normal, (init_pending (original_index (PRODUCTS_DATA s ! ref)) s)
                \<lparr>alerts := alerts s @ [invalid_price_message]\<rparr>)"
  using assms by (simp add: saveBtn_click_def Let_def)

lemma save_accepted:
  assumes "currentProductInModal s = Some ref" and "modalPrice (modal s) = Some t"
    and "\<not> price_rejected t"
  shows "PRODUCTS_DATA (snd (saveBtn_click s)) =
           PRODUCTS_DATA (record_edits ref (original_index (PRODUCTS_DATA s ! ref))
              (init_pending (original_index (PRODUCTS_DATA s ! ref)) s))"
    and "pendingChanges (snd (saveBtn_click s)) =
           pendingChanges (record_edits ref (original_index (PRODUCTS_DATA s ! ref))
              (init_pending (original_index (PRODUCTS_DATA s ! ref)) s))"
    and "alerts (snd (saveBtn_click s)) = alerts s"
    and "requests (snd (saveBtn_click s)) = requests s"
proof -
  let ?idx = "original_index (PRODUCTS_DATA s ! ref)"
  let ?s4 = "record_edits ref ?idx (init_pending ?idx s)"
  obtain c s5 where u: "updateMainGridView ?idx ?s4 = (c, s5)" by (cases "updateMainGridView ?idx ?s4")
  then have s5: "s5 = snd (updateMainGridView ?idx ?s4)" by simp
  have click: "snd (saveBtn_click s) =
      (case c of TypeError \<Rightarrow> s5 | Normal \<Rightarrow> s5\<lparr>modal := (modal s5)\<lparr>modalDisplay := ''none''\<rparr>\<rparr>)"
    using assms u by (cases c) (auto simp: saveBtn_click_def Let_def)
  show "PRODUCTS_DATA (snd (saveBtn_click s)) = PRODUCTS_DATA ?s4"
    unfolding click s5 by (cases c) simp_all
  show "pendingChanges (snd (saveBtn_click s)) = pendingChanges ?s4"
    unfolding click s5 by (cases c) simp_all
  show "alerts (snd (saveBtn_click s)) = alerts s"
    unfolding click s5 by (cases c) simp_all
  show "requests (snd (saveBtn_click s)) = requests s"
    unfolding click s5 by (cases c) simp_all
qed

text \<open>The pending entries through the parts of a save.\<close>

lemma save_description_defined [simp]:
  "has_object (save_description ref idx s) i \<longleftrightarrow> has_object s i"
  by (simp add: save_description_def Let_def)

lemma save_price_defined [simp]:
  "has_object (save_price ref idx s) i \<longleftrightarrow> has_object s i"
  by (simp add: save_price_def Let_def split: option.splits)

lemma save_attribute_defined [simp]:
  "has_object (save_attribute ref idx row s) i \<longleftrightarrow> has_object s i"
  by (simp add: save_attribute_def Let_def)

lemma pending_entry_update_product [simp]:
  "pending_entry (update_product ref g s) i f = pending_entry s i f"
  by (simp add: pending_entry_def)

lemma pending_entry_save_description:
  "has_object s idx \<Longrightarrow>
   pending_entry (save_description ref idx s) i g =
     (if i = idx \<and> g = ''description'' \<and> trim (modalDescription (modal s)) \<noteq> description (PRODUCTS_DATA s ! ref)
      then Some (trim (modalDescription (modal s))) else pending_entry s i g)"
  by (simp add: save_description_def Let_def pending_entry_set_pending)

lemma pending_entry_save_price:
  "has_object s idx \<Longrightarrow> modalPrice (modal s) = Some t \<Longrightarrow>
   pending_entry (save_price ref idx s) i g =
     (if i = idx \<and> g = ''price'' \<and> trim t \<noteq> price (PRODUCTS_DATA s ! ref)
      then Some (strip_dollar (trim t)) else pending_entry s i g)"
  by (simp add: save_price_def Let_def pending_entry_set_pending)

lemma pending_entry_save_attribute:
  "has_object s idx \<Longrightarrow>
   pending_entry (save_attribute ref idx row s) i g =
     (if i = idx \<and> g = row_attrName row
         \<and> Some (row_value row) \<noteq> map_of (attributes (PRODUCTS_DATA s ! ref)) (row_attrName row)
      then Some (row_value row) else pending_entry s i g)"
  by (simp add: save_attribute_def Let_def pending_entry_set_pending)

lemma fold_save_attribute_defined [simp]:
  "has_object (fold (save_attribute ref idx) rows s) i \<longleftrightarrow> has_object s i"
  by (induction rows arbitrary: s) simp_all

lemma pending_entry_fold_other:
  assumes "has_object s idx"
    and "i \<noteq> idx \<or> g \<notin> row_attrName ` set rows"
  shows "pending_entry (fold (save_attribute ref idx) rows s) i g = pending_entry s i g"
  using assms
proof (induction rows arbitrary: s)
  case Nil
  then show ?case by simp
next
  case (Cons row rows)
  have "pending_entry (fold (save_attribute ref idx) rows (save_attribute ref idx row s)) i g
        = pending_entry (save_attribute ref idx row s) i g"
    using Cons.prems by (intro Cons.IH) auto
  also have "\<dots> = pending_entry s i g"
    using Cons.prems by (auto simp: pending_entry_save_attribute)
  finally show ?case by simp
qed

lemma map_of_attr_step_other:
  "g \<noteq> row_attrName row \<Longrightarrow> map_of (attr_step row attrs) g = map_of attrs g"
  by (simp add: attr_step_def update_conv')

lemma pending_entry_fold_row:
  assumes "ref < length (PRODUCTS_DATA s)" and "has_object s idx"
    and "distinct (map row_attrName rows)" and "row \<in> set rows"
  shows "pending_entry (fold (save_attribute ref idx) rows s) idx (row_attrName row) =
     (if Some (row_value row) \<noteq> map_of (attributes (PRODUCTS_DATA s ! ref)) (row_attrName row)
      then Some (row_value row) else pending_entry s idx (row_attrName row))"
  using assms
proof (induction rows arbitrary: s)
  case Nil
  then show ?case by simp
next
  case (Cons r rows)
  let ?s = "save_attribute ref idx r s"
  have def': "has_object ?s idx" using Cons.prems(2) by simp
  have len': "ref < length (PRODUCTS_DATA ?s)" using Cons.prems(1) by (simp add: save_attribute_data)
  show ?case
  proof (cases "row = r")
    case True
    have notin: "row_attrName row \<notin> row_attrName ` set rows"
      using Cons.prems(3) True by auto
    have "pending_entry (fold (save_attribute ref idx) rows ?s) idx (row_attrName row)
          = pending_entry ?s idx (row_attrName row)"
      using def' notin by (intro pending_entry_fold_other) auto
    then show ?thesis
      using True Cons.prems(2) by (simp add: pending_entry_save_attribute)
  next
    case False
    then have mem: "row \<in> set rows" using Cons.prems(4) by simp
    have "row_attrName r \<notin> set (map row_attrName rows)"
      using Cons.prems(3) by simp
    moreover have "row_attrName row \<in> set (map row_attrName rows)"
      using mem by simp
    ultimately have ne: "row_attrName row \<noteq> row_attrName r"
      by metis
    have dist: "distinct (map row_attrName rows)" using Cons.prems(3) by simp
    have attrs: "map_of (attributes (PRODUCTS_DATA ?s ! ref)) (row_attrName row)
                 = map_of (attributes (PRODUCTS_DATA s ! ref)) (row_attrName row)"
      using Cons.prems(1) ne by (simp add: save_attribute_data map_of_attr_step_other)
    have ent: "pending_entry ?s idx (row_attrName row) = pending_entry s idx (row_attrName row)"
      using Cons.prems(2) ne by (simp add: pending_entry_save_attribute)
    show ?thesis
      using Cons.IH [OF len' def' dist mem] attrs ent by simp
  qed
qed

subsection \<open>The price pattern\<close>

lemma nullable_lang: "nullable r \<longleftrightarrow> [] \<in> lang r"
  by (induction r) (auto intro: star.star_nil)

lemma star_cons_split:
  assumes "w \<in> star A" and "w = c # s"
  shows "\<exists>u v. c # u \<in> A \<and> v \<in> star A \<and> s = u @ v"
  using assms
proof (induction arbitrary: s rule: star.induct)
  case star_nil
  then show ?case by simp
next
  case (star_app u v)
  show ?case
  proof (cases u)
    case Nil
    with star_app show ?thesis by simp
  next
    case (Cons a u')
    with star_app.prems have "a = c" and "s = u' @ v" by simp_all
    with Cons star_app.hyps show ?thesis by blast
  qed
qed

lemma lang_deriv: "s \<in> lang (deriv c r) \<longleftrightarrow> c # s \<in> lang r"
proof (induction r arbitrary: s)
  case (Seq r1 r2)
  show ?case
  proof
    assume "s \<in> lang (deriv c (Seq r1 r2))"
    then consider (l) u v where "u \<in> lang (deriv c r1)" "v \<in> lang r2" "s = u @ v"
      | (r) "nullable r1" "s \<in> lang (deriv c r2)"
      by (auto split: if_splits)
    then show "c # s \<in> lang (Seq r1 r2)"
    proof cases
      case l
      then have "c # u \<in> lang r1" using Seq.IH(1) by simp
      with l have "(c # u) @ v \<in> lang (Seq r1 r2)" unfolding lang.simps(4) by blast
      with l show ?thesis by simp
    next
      case r
      then have "[] \<in> lang r1" "c # s \<in> lang r2" using Seq.IH(2) by (simp_all add: nullable_lang)
      then have "[] @ (c # s) \<in> lang (Seq r1 r2)" unfolding lang.simps(4) by blast
      then show ?thesis by simp
    qed
  next
    assume "c # s \<in> lang (Seq r1 r2)"
    then obtain u v where uv: "u \<in> lang r1" "v \<in> lang r2" "c # s = u @ v" by auto
    show "s \<in> lang (deriv c (Seq r1 r2))"
    proof (cases u)
      case Nil
      with uv have "nullable r1" "s \<in> lang (deriv c r2)" using Seq.IH(2) by (simp_all add: nullable_lang)
      then show ?thesis by simp
    next
      case (Cons a u')
      with uv have "u' \<in> lang (deriv c r1)" "s = u' @ v" using Seq.IH(1) by simp_all
      with uv(2) show ?thesis by auto
    qed
  qed
next
  case (Star r)
  show ?case
  proof
    assume "s \<in> lang (deriv c (Star r))"
    then obtain u v where "u \<in> lang (deriv c r)" "v \<in> star (lang r)" "s = u @ v" by auto
    then have "c # u \<in> lang r" using Star.IH by simp
    then have "(c # u) @ v \<in> star (lang r)" using \<open>v \<in> star (lang r)\<close> by (rule star.star_app)
    then show "c # s \<in> lang (Star r)" using \<open>s = u @ v\<close> by simp
  next
    assume "c # s \<in> lang (Star r)"
    then have "c # s \<in> star (lang r)" by simp
    from star_cons_split[OF this refl]
    obtain u v where "c # u \<in> lang r" "v \<in> star (lang r)" "s = u @ v" by blast
    then show "s \<in> lang (deriv c (Star r))" using Star.IH by auto
  qed
qed auto

lemma regex_test_lang: "regex_test r s \<longleftrightarrow> s \<in> lang r"
  by (induction s arbitrary: r) (simp_all add: nullable_lang lang_deriv)

lemma star_class: "s \<in> star {[c] | c. c \<in> set cs} \<longleftrightarrow> set s \<subseteq> set cs"
proof
  assume "s \<in> star {[c] | c. c \<in> set cs}"
  then show "set s \<subseteq> set cs" by (induction rule: star.induct) auto
next
  assume "set s \<subseteq> set cs"
  then show "s \<in> star {[c] | c. c \<in> set cs}"
  proof (induction s)
    case Nil
    show ?case by (rule star.star_nil)
  next
    case (Cons a s)
    then have "[a] \<in> {[c] | c. c \<in> set cs}" "s \<in> star {[c] | c. c \<in> set cs}" by auto
    then have "[a] @ s \<in> star {[c] | c. c \<in> set cs}" by (rule star.star_app)
    then show ?case by simp
  qed
qed

lemma lang_Plus_Class: "s \<in> lang (Plus (Class cs)) \<longleftrightarrow> s \<noteq> [] \<and> set s \<subseteq> set cs"
proof
  assume "s \<in> lang (Plus (Class cs))"
  then obtain u v where "u \<in> lang (Class cs)" "v \<in> star (lang (Class cs))" "s = u @ v"
    by (auto simp: Plus_def)
  then show "s \<noteq> [] \<and> set s \<subseteq> set cs"
    by (auto simp: star_class)
next
  assume a: "s \<noteq> [] \<and> set s \<subseteq> set cs"
  then obtain c v where s: "s = c # v" by (cases s) auto
  with a have "[c] \<in> lang (Class cs)" "v \<in> lang (Star (Class cs))"
    by (auto simp: star_class)
  then have "[c] @ v \<in> lang (Seq (Class cs) (Star (Class cs)))"
    unfolding lang.simps(4) by blast
  with s show "s \<in> lang (Plus (Class cs))" by (simp add: Plus_def)
qed

lemma digits_iff: "s \<noteq> [] \<and> set s \<subseteq> set ''0123456789'' \<longleftrightarrow> s \<noteq> [] \<and> list_all is_digit s"
  by (simp only: list_all_iff is_digit_def [symmetric] subset_eq)

lemma lang_Seq_iff: "w \<in> lang (Seq r s) \<longleftrightarrow> (\<exists>u v. u \<in> lang r \<and> v \<in> lang s \<and> w = u @ v)"
  by auto

lemma lang_Opt_iff: "w \<in> lang (Opt r) \<longleftrightarrow> w \<in> lang r \<or> w = []"
  by (auto simp: Opt_def)

lemma lang_dot_iff: "u \<in> lang (Class ''.'') \<longleftrightarrow> u = ''.''"
  by simp

lemma lang_digits_iff: "x \<in> lang (Plus (Class ''0123456789'')) \<longleftrightarrow> x \<noteq> [] \<and> list_all is_digit x"
  using digits_iff [of x] by (simp only: lang_Plus_Class)

lemma lang_price_regex:
  "s \<in> lang price_regex \<longleftrightarrow> numeric_pattern s"
proof
  assume "s \<in> lang price_regex"
  then obtain ds v where ds: "ds \<noteq> []" "list_all is_digit ds"
    and v: "v \<in> lang (Seq (Class ''.'') (Plus (Class ''0123456789''))) \<or> v = []"
    and s: "s = ds @ v"
    unfolding price_regex_def lang_Seq_iff [of s] lang_Opt_iff lang_digits_iff by blast
  from v show "numeric_pattern s"
  proof
    assume "v = []"
    with ds s show ?thesis unfolding numeric_pattern_def by auto
  next
    assume "v \<in> lang (Seq (Class ''.'') (Plus (Class ''0123456789'')))"
    then obtain fs where "fs \<noteq> []" "list_all is_digit fs" "v = ''.'' @ fs"
      unfolding lang_Seq_iff [of v] lang_dot_iff lang_digits_iff by blast
    with ds s show ?thesis unfolding numeric_pattern_def by blast
  qed
next
  assume "numeric_pattern s"
  then obtain ds where ds: "ds \<noteq> []" "list_all is_digit ds"
    and s: "s = ds \<or> (\<exists>fs. fs \<noteq> [] \<and> list_all is_digit fs \<and> s = ds @ ''.'' @ fs)"
    unfolding numeric_pattern_def by blast
  have D: "ds \<in> lang (Plus (Class ''0123456789''))"
    using ds by (simp add: lang_digits_iff)
  from s have "\<exists>v. v \<in> lang (Opt (Seq (Class ''.'') (Plus (Class ''0123456789'')))) \<and> s = ds @ v"
  proof
    assume "s = ds"
    then show ?thesis by (simp add: lang_Opt_iff)
  next
    assume "\<exists>fs. fs \<noteq> [] \<and> list_all is_digit fs \<and> s = ds @ ''.'' @ fs"
    then obtain fs where fs: "fs \<in> lang (Plus (Class ''0123456789''))" and s': "s = ds @ ''.'' @ fs"
      unfolding lang_digits_iff by blast
    have "''.'' @ fs \<in> lang (Seq (Class ''.'') (Plus (Class ''0123456789'')))"
      unfolding lang_Seq_iff lang_dot_iff using fs by blast
    then have "''.'' @ fs \<in> lang (Opt (Seq (Class ''.'') (Plus (Class ''0123456789''))))"
      by (simp only: lang_Opt_iff) simp
    with s' show ?thesis by blast
  qed
  with D show "s \<in> lang price_regex"
    unfolding price_regex_def lang_Seq_iff [of s] by blast
qed

lemma price_regex_test: "regex_test price_regex s \<longleftrightarrow> numeric_pattern s"
  by (simp add: regex_test_lang lang_price_regex)

lemma is_digit_not_dollar: "is_digit d \<Longrightarrow> d \<noteq> CHR ''$''"
  by (auto simp: is_digit_def)

lemma numeric_pattern_hd:
  assumes "numeric_pattern s"
  shows "\<exists>d cs. s = d # cs \<and> is_digit d"
proof -
  from assms obtain ds where ds: "ds \<noteq> []" "list_all is_digit ds"
    and s: "s = ds \<or> (\<exists>fs. s = ds @ ''.'' @ fs)"
    unfolding numeric_pattern_def by blast
  from ds obtain d ds' where d: "ds = d # ds'" "is_digit d" by (cases ds) simp_all
  from s show ?thesis
  proof
    assume "s = ds"
    with d show ?thesis by simp
  next
    assume "\<exists>fs. s = ds @ ''.'' @ fs"
    then obtain fs where "s = d # (ds' @ ''.'' @ fs)" using d by auto
    with d show ?thesis by blast
  qed
qed

lemma numeric_pattern_no_dollar:
  assumes "numeric_pattern s"
  shows "strip_dollar s = s"
proof -
  from numeric_pattern_hd [OF assms] obtain d cs where "s = d # cs" "is_digit d" by blast
  then show ?thesis by (simp add: strip_dollar_def is_digit_not_dollar)
qed

lemma price_rejected_iff:
  "price_rejected t \<longleftrightarrow> \<not> (trim t = [] \<or> numeric_pattern (trim t))"
  by (simp add: price_rejected_def Let_def price_regex_test)

subsection \<open>A save that is not refused\<close>

lemma find_original_index:
  assumes "ref < length ps"
  shows "find (\<lambda>p. original_index p = original_index (ps ! ref)) ps \<noteq> None"
proof -
  have "ps ! ref \<in> set ps" using assms by (rule nth_mem)
  then show ?thesis unfolding find_None_iff by blast
qed

lemma updateMainGridView_Normal:
  assumes "find (\<lambda>p. original_index p = i) (PRODUCTS_DATA s) \<noteq> None"
  shows "fst (updateMainGridView i s) = Normal"
  using assms by (auto simp: updateMainGridView_def split: option.splits)

lemma record_edits_index:
  assumes "ref < length (PRODUCTS_DATA s)" and "modalPrice (modal s) = Some t"
  shows "original_index (PRODUCTS_DATA (record_edits ref idx s) ! ref) = original_index (PRODUCTS_DATA s ! ref)"
    and "ref < length (PRODUCTS_DATA (record_edits ref idx s))"
  using assms(1) by (simp_all add: record_edits_data [OF assms])

lemma save_accepted_completes:
  assumes "currentProductInModal s = Some ref" and "ref < length (PRODUCTS_DATA s)"
    and "modalPrice (modal s) = Some t" and "\<not> price_rejected t"
  shows "fst (saveBtn_click s) = Normal"
    and "modalDisplay (modal (snd (saveBtn_click s))) = ''none''"
proof -
  let ?idx = "original_index (PRODUCTS_DATA s ! ref)"
  let ?s4 = "record_edits ref ?idx (init_pending ?idx s)"
  have len: "ref < length (PRODUCTS_DATA (init_pending ?idx s))" using assms(2) by simp
  have mp: "modalPrice (modal (init_pending ?idx s)) = Some t" using assms(3) by simp
  have "original_index (PRODUCTS_DATA ?s4 ! ref) = ?idx"
    using record_edits_index(1) [OF len mp] by simp
  moreover have "ref < length (PRODUCTS_DATA ?s4)"
    using record_edits_index(2) [OF len mp] .
  ultimately have "find (\<lambda>p. original_index p = ?idx) (PRODUCTS_DATA ?s4) \<noteq> None"
    using find_original_index [of ref "PRODUCTS_DATA ?s4"] by simp
  then have "fst (updateMainGridView ?idx ?s4) = Normal"
    by (rule updateMainGridView_Normal)
  then obtain s5 where u: "updateMainGridView ?idx ?s4 = (Normal, s5)"
    by (cases "updateMainGridView ?idx ?s4") simp
  show "fst (saveBtn_click s) = Normal"
    using assms u by (simp add: saveBtn_click_def Let_def)
  show "modalDisplay (modal (snd (saveBtn_click s))) = ''none''"
    using assms u by (simp add: saveBtn_click_def Let_def)
qed

lemma price_examples:
  "\<not> price_rejected ''12.50''" "price_rejected ''$12''" "price_rejected ''abc''"
  "price_rejected ''12.5.6''" "\<not> price_rejected ''''"
  by (simp_all add: price_rejected_def Let_def trim_def is_ws_def price_regex_def Plus_def Opt_def)

subsection \<open>The pending entries after the edits of a save\<close>

lemma record_edits_defined [simp]:
  "has_object (record_edits ref idx s) i \<longleftrightarrow> has_object s i"
  by (simp add: record_edits_def Let_def)

lemma pending_entry_record_edits_description:
  assumes "ref < length (PRODUCTS_DATA s)" and "has_object s idx" and "modalPrice (modal s) = Some t"
    and "''description'' \<notin> row_attrName ` set (modalRows (modal s))"
  shows "pending_entry (record_edits ref idx s) idx ''description'' =
     (if trim (modalDescription (modal s)) \<noteq> description (PRODUCTS_DATA s ! ref)
      then Some (trim (modalDescription (modal s))) else pending_entry s idx ''description'')"
proof -
  let ?s2 = "save_description ref idx s"
  let ?s3 = "save_price ref idx ?s2"
  have o3: "has_object ?s3 idx" using assms(2) by simp
  have "pending_entry (record_edits ref idx s) idx ''description'' = pending_entry ?s3 idx ''description''"
    unfolding record_edits_def Let_def using o3 assms(4)
    by (intro pending_entry_fold_other) simp_all
  also have "\<dots> = pending_entry ?s2 idx ''description''"
    using assms(2,3) by (simp add: pending_entry_save_price)
  finally show ?thesis
    using assms(2) by (simp add: pending_entry_save_description)
qed

lemma pending_entry_record_edits_price:
  assumes "ref < length (PRODUCTS_DATA s)" and "has_object s idx" and "modalPrice (modal s) = Some t"
    and "''price'' \<notin> row_attrName ` set (modalRows (modal s))"
  shows "pending_entry (record_edits ref idx s) idx ''price'' =
     (if trim t \<noteq> price (PRODUCTS_DATA s ! ref)
      then Some (strip_dollar (trim t)) else pending_entry s idx ''price'')"
proof -
  let ?s2 = "save_description ref idx s"
  let ?s3 = "save_price ref idx ?s2"
  have o2: "has_object ?s2 idx" using assms(2) by simp
  have o3: "has_object ?s3 idx" using assms(2) by simp
  have m2: "modalPrice (modal ?s2) = Some t" using assms(3) by simp
  have p2: "price (PRODUCTS_DATA ?s2 ! ref) = price (PRODUCTS_DATA s ! ref)"
    using assms(1) by (simp add: save_description_data)
  have "pending_entry (record_edits ref idx s) idx ''price'' = pending_entry ?s3 idx ''price''"
    unfolding record_edits_def Let_def using o3 assms(4)
    by (intro pending_entry_fold_other) simp_all
  also have "\<dots> = (if trim t \<noteq> price (PRODUCTS_DATA s ! ref)
      then Some (strip_dollar (trim t)) else pending_entry ?s2 idx ''price'')"
    using pending_entry_save_price [OF o2 m2, of ref idx "''price''"] p2 by simp
  finally show ?thesis
    using assms(2) by (simp add: pending_entry_save_description)
qed

lemma pending_entry_record_edits_row:
  assumes "ref < length (PRODUCTS_DATA s)" and "has_object s idx" and "modalPrice (modal s) = Some t"
    and "distinct (map row_attrName (modalRows (modal s)))"
    and "row \<in> set (modalRows (modal s))"
    and "row_attrName row \<noteq> ''description''" and "row_attrName row \<noteq> ''price''"
  shows "pending_entry (record_edits ref idx s) idx (row_attrName row) =
     (if Some (row_value row) \<noteq> map_of (attributes (PRODUCTS_DATA s ! ref)) (row_attrName row)
      then Some (row_value row) else pending_entry s idx (row_attrName row))"
proof -
  let ?s2 = "save_description ref idx s"
  let ?s3 = "save_price ref idx ?s2"
  have o2: "has_object ?s2 idx" using assms(2) by simp
  have o3: "has_object ?s3 idx" using assms(2) by simp
  have m2: "modalPrice (modal ?s2) = Some t" using assms(3) by simp
  have l2: "ref < length (PRODUCTS_DATA ?s2)" using assms(1) by (simp add: save_description_data)
  have l3: "ref < length (PRODUCTS_DATA ?s3)" using l2 by (simp add: save_price_data [OF m2])
  have a3: "attributes (PRODUCTS_DATA ?s3 ! ref) = attributes (PRODUCTS_DATA s ! ref)"
    using assms(1) l2 by (simp add: save_price_data [OF m2] save_description_data)
  have e3: "pending_entry ?s3 idx (row_attrName row) = pending_entry s idx (row_attrName row)"
    using assms(2,6,7) o2 m2 by (simp add: pending_entry_save_price pending_entry_save_description)
  have d3: "distinct (map row_attrName (modalRows (modal ?s3)))" using assms(4) by simp
  have r3: "row \<in> set (modalRows (modal ?s3))" using assms(5) by simp
  show ?thesis
    unfolding record_edits_def Let_def
    using pending_entry_fold_row [OF l3 o3 d3 r3] a3 e3 by simp
qed

lemma save_price_other:
  "has_object s idx \<Longrightarrow> i \<noteq> idx \<or> g \<noteq> ''price'' \<Longrightarrow>
   pending_entry (save_price ref idx s) i g = pending_entry s i g"
  by (auto simp: save_price_def Let_def pending_entry_set_pending split: option.splits)

lemma save_price_keeps:
  "has_object s idx \<Longrightarrow> pending_entry s i g \<noteq> None \<Longrightarrow>
   pending_entry (save_price ref idx s) i g \<noteq> None"
  by (auto simp: save_price_def Let_def pending_entry_set_pending split: option.splits)

lemma pending_entry_record_edits_other:
  assumes "has_object s idx" and "i \<noteq> idx"
  shows "pending_entry (record_edits ref idx s) i g = pending_entry s i g"
proof -
  let ?s2 = "save_description ref idx s"
  let ?s3 = "save_price ref idx ?s2"
  have o2: "has_object ?s2 idx" using assms(1) by simp
  have o3: "has_object ?s3 idx" using assms(1) by simp
  have "pending_entry (record_edits ref idx s) i g = pending_entry ?s3 i g"
    unfolding record_edits_def Let_def using o3 assms(2)
    by (intro pending_entry_fold_other) simp_all
  also have "\<dots> = pending_entry ?s2 i g"
    using o2 assms(2) by (simp add: save_price_other)
  also have "\<dots> = pending_entry s i g"
    using assms by (simp add: pending_entry_save_description)
  finally show ?thesis .
qed

text \<open>No part of a save removes an entry.\<close>

lemma save_attribute_keeps:
  "has_object s idx \<Longrightarrow> pending_entry s i g \<noteq> None \<Longrightarrow>
   pending_entry (save_attribute ref idx row s) i g \<noteq> None"
  by (simp add: pending_entry_save_attribute)

lemma fold_save_attribute_keeps:
  "has_object s idx \<Longrightarrow> pending_entry s i g \<noteq> None \<Longrightarrow>
   pending_entry (fold (save_attribute ref idx) rows s) i g \<noteq> None"
proof (induction rows arbitrary: s)
  case Nil
  then show ?case by simp
next
  case (Cons row rows)
  have "has_object (save_attribute ref idx row s) idx" using Cons.prems(1) by simp
  moreover have "pending_entry (save_attribute ref idx row s) i g \<noteq> None"
    using Cons.prems by (rule save_attribute_keeps)
  ultimately show ?case using Cons.IH by simp
qed

lemma record_edits_keeps:
  assumes "has_object s idx" and "pending_entry s i g \<noteq> None"
  shows "pending_entry (record_edits ref idx s) i g \<noteq> None"
proof -
  let ?s2 = "save_description ref idx s"
  let ?s3 = "save_price ref idx ?s2"
  have o2: "has_object ?s2 idx" using assms(1) by simp
  have o3: "has_object ?s3 idx" using assms(1) by simp
  have k2: "pending_entry ?s2 i g \<noteq> None"
    using assms by (simp add: pending_entry_save_description)
  have k3: "pending_entry ?s3 i g \<noteq> None"
    using o2 k2 by (rule save_price_keeps)
  show ?thesis
    unfolding record_edits_def Let_def using o3 k3 by (simp add: fold_save_attribute_keeps)
qed

subsection \<open>Saves of the small catalogue\<close>

lemmas mug_defs = editing_def reopened_def mug_def mug_el_def mug_page_def all_selected_def

lemmas edit_eval = init_pending_def record_edits_def save_description_def
  save_price_def save_attribute_def row_value_def set_pending_def update_product_def
  strip_dollar_def pending_entry_def trim_def is_ws_def

lemma price_10_accepted: "\<not> price_rejected ''10''"
  by (simp add: price_rejected_def Let_def trim_def is_ws_def price_regex_def Plus_def Opt_def)

lemma mug_save:
  assumes "currentProductInModal s = Some 0" and "modalPrice (modal s) = Some p"
    and "original_index (PRODUCTS_DATA s ! 0) = 7" and "\<not> price_rejected p"
  shows "pendingChanges (snd (saveBtn_click s)) = pendingChanges (record_edits 0 7 (init_pending 7 s))"
    and "PRODUCTS_DATA (snd (saveBtn_click s)) = PRODUCTS_DATA (record_edits 0 7 (init_pending 7 s))"
  using save_accepted(1,2) [OF assms(1,2,4)] assms(3) by simp_all

lemma mug_refused:
  assumes "price_rejected p"
  shows "saveBtn_click (editing d p c) =
           (Normal, (init_pending 7 (editing d p c))\<lparr>alerts := [invalid_price_message]\<rparr>)"
proof -
  have h: "currentProductInModal (editing d p c) = Some 0" "modalPrice (modal (editing d p c)) = Some p"
    by (simp_all add: mug_defs)
  show ?thesis
    using save_rejected [OF h assms] by (simp add: mug_defs)
qed

lemma editing_facts:
  "currentProductInModal (editing d p c) = Some 0"
  "modalPrice (modal (editing d p c)) = Some p"
  "original_index (PRODUCTS_DATA (editing d p c) ! 0) = 7"
  by (simp_all add: mug_defs)

lemma cup_saved_data:
  "pendingChanges cup_saved = [(7, [(''description'', ''Cup'')])]"
  "PRODUCTS_DATA cup_saved = [mug\<lparr>description := ''Cup''\<rparr>]"
  unfolding cup_saved_def mug_save [OF editing_facts price_10_accepted]
  by (simp_all add: mug_defs edit_eval Let_def)

lemma reopened_facts:
  "currentProductInModal (reopened d p c s) = Some 0"
  "modalPrice (modal (reopened d p c s)) = Some p"
  "PRODUCTS_DATA (reopened d p c s) = PRODUCTS_DATA s"
  "pendingChanges (reopened d p c s) = pendingChanges s"
  by (simp_all add: reopened_def)

lemma cup_then_mug_data:
  "pendingChanges cup_then_mug = [(7, [(''description'', ''Mug'')])]"
  "PRODUCTS_DATA cup_then_mug = [mug]"
proof -
  have ix: "original_index (PRODUCTS_DATA (reopened ''Mug'' ''10'' ''Red'' cup_saved) ! 0) = 7"
    by (simp add: reopened_facts cup_saved_data mug_def)
  note sv = mug_save [OF reopened_facts(1,2) ix price_10_accepted]
  show "pendingChanges cup_then_mug = [(7, [(''description'', ''Mug'')])]"
    unfolding cup_then_mug_def sv(1)
    by (simp add: edit_eval Let_def reopened_def cup_saved_data mug_def)
  show "PRODUCTS_DATA cup_then_mug = [mug]"
    unfolding cup_then_mug_def sv(2)
    by (simp add: edit_eval Let_def reopened_def cup_saved_data mug_def)
qed

subsection \<open>The attributes after the edits\<close>

lemma map_of_attr_step_same:
  "map_of (attr_step row attrs) (row_attrName row) = Some (row_value row)"
  by (auto simp: attr_step_def update_conv')

lemma map_of_fold_attr_step_other:
  "g \<notin> row_attrName ` set rows \<Longrightarrow> map_of (fold attr_step rows attrs) g = map_of attrs g"
  by (induction rows arbitrary: attrs) (simp_all add: map_of_attr_step_other)

lemma map_of_fold_attr_step_row:
  assumes "distinct (map row_attrName rows)" and "row \<in> set rows"
  shows "map_of (fold attr_step rows attrs) (row_attrName row) = Some (row_value row)"
  using assms
proof (induction rows arbitrary: attrs)
  case Nil
  then show ?case by simp
next
  case (Cons r rows)
  show ?case
  proof (cases "row = r")
    case True
    then have "row_attrName row \<notin> row_attrName ` set rows"
      using Cons.prems(1) by auto
    then show ?thesis
      using True by (simp add: map_of_fold_attr_step_other map_of_attr_step_same)
  next
    case False
    then show ?thesis using Cons by simp
  qed
qed

lemma accepted_price_unstripped:
  assumes "\<not> price_rejected t"
  shows "strip_dollar (trim t) = trim t" and "trim t \<noteq> CHR ''$'' # cs"
proof -
  from assms have c: "trim t = [] \<or> numeric_pattern (trim t)"
    by (simp add: price_rejected_iff)
  then show "strip_dollar (trim t) = trim t"
  proof
    assume "trim t = []"
    then show ?thesis by (simp add: strip_dollar_def)
  next
    assume "numeric_pattern (trim t)"
    then show ?thesis by (rule numeric_pattern_no_dollar)
  qed
  from c show "trim t \<noteq> CHR ''$'' # cs"
  proof
    assume "trim t = []"
    then show ?thesis by simp
  next
    assume "numeric_pattern (trim t)"
    from numeric_pattern_hd [OF this] obtain d ds where "trim t = d # ds" "is_digit d" by blast
    then show ?thesis using is_digit_not_dollar by auto
  qed
qed

subsection \<open>The enumeration of an object\<close>

lemma map_snd_index_filter:
  "map snd (List.map_filter (\<lambda>kv. map_option (\<lambda>n. (n, kv)) (ix (fst kv))) al)
     = filter (\<lambda>kv. ix (fst kv) \<noteq> None) al"
  by (induction al) (auto simp: List.map_filter_simps split: option.splits)

lemma set_indexed_entries:
  "set (map snd (sort_key fst
      (List.map_filter (\<lambda>kv. map_option (\<lambda>n. (n, kv)) (ix (fst kv))) al)))
     = set (filter (\<lambda>kv. ix (fst kv) \<noteq> None) al)"
proof -
  let ?L = "List.map_filter (\<lambda>kv. map_option (\<lambda>n. (n, kv)) (ix (fst kv))) al"
  have "set (map snd (sort_key fst ?L)) = set (map snd ?L)" by simp
  then show ?thesis by (simp only: map_snd_index_filter)
qed

lemma set_own_entries [simp]: "set (own_entries ix al) = set al"
  unfolding own_entries_def set_append set_indexed_entries by auto



subsection \<open>The change list\<close>

lemma changesToSend_Nil [simp]: "changesToSend [] = []"
  by (simp add: changesToSend_def own_entries_def List.map_filter_simps)






subsection \<open>The handlers keep \<open>pendingChanges\<close> an object of objects\<close>

lemma pending_wf_alt:
  "pending_wf pending \<longleftrightarrow>
     distinct (map fst pending)
     \<and> (\<forall>k attrs. map_of pending k = Some attrs \<longrightarrow> distinct (map fst attrs))"
proof (cases "distinct (map fst pending)")
  case True
  have "(\<forall>entry \<in> set pending. distinct (map fst (snd entry)))
      \<longleftrightarrow> (\<forall>k attrs. (k, attrs) \<in> set pending \<longrightarrow> distinct (map fst attrs))"
    by auto
  also have "\<dots> \<longleftrightarrow> (\<forall>k attrs. map_of pending k = Some attrs \<longrightarrow> distinct (map fst attrs))"
    using True by simp
  finally show ?thesis by (simp add: pending_wf_def True)
next
  case False
  then show ?thesis by (simp add: pending_wf_def)
qed

lemma pending_wf_Nil [simp]: "pending_wf []"
  by (simp add: pending_wf_def)

lemma pending_wf_init_pending:
  "pending_wf (pendingChanges s) \<Longrightarrow> pending_wf (pendingChanges (init_pending idx s))"
  by (auto simp: pending_wf_alt init_pending_def distinct_update update_conv' split: option.splits)

lemma pending_wf_set_pending:
  "pending_wf (pendingChanges s) \<Longrightarrow> pending_wf (pendingChanges (set_pending idx f v s))"
  by (auto simp: pending_wf_alt set_pending_def distinct_map_entry map_of_map_entry distinct_update
      split: option.splits if_splits)

lemma pending_wf_save_description:
  "pending_wf (pendingChanges s) \<Longrightarrow> pending_wf (pendingChanges (save_description ref idx s))"
  by (simp add: save_description_def Let_def pending_wf_set_pending)

lemma pending_wf_save_price:
  "pending_wf (pendingChanges s) \<Longrightarrow> pending_wf (pendingChanges (save_price ref idx s))"
  by (simp add: save_price_def Let_def pending_wf_set_pending split: option.splits)

lemma pending_wf_save_attribute:
  "pending_wf (pendingChanges s) \<Longrightarrow> pending_wf (pendingChanges (save_attribute ref idx row s))"
  by (simp add: save_attribute_def Let_def pending_wf_set_pending)

lemma pending_wf_fold_save_attribute:
  "pending_wf (pendingChanges s) \<Longrightarrow>
   pending_wf (pendingChanges (fold (save_attribute ref idx) rows s))"
  by (induction rows arbitrary: s) (simp_all add: pending_wf_save_attribute)

lemma pending_wf_record_edits:
  "pending_wf (pendingChanges s) \<Longrightarrow> pending_wf (pendingChanges (record_edits ref idx s))"
  by (simp add: record_edits_def Let_def pending_wf_fold_save_attribute pending_wf_save_price
      pending_wf_save_description)

lemma pending_wf_saveBtn_click:
  assumes "pending_wf (pendingChanges s)"
  shows "pending_wf (pendingChanges (snd (saveBtn_click s)))"
proof (cases "currentProductInModal s")
  case None
  then show ?thesis using assms by (simp add: saveBtn_click_def)
next
  case (Some ref)
  let ?idx = "original_index (PRODUCTS_DATA s ! ref)"
  have wf1: "pending_wf (pendingChanges (init_pending ?idx s))"
    using assms by (rule pending_wf_init_pending)
  show ?thesis
  proof (cases "modalPrice (modal s)")
    case None
    then show ?thesis using Some wf1 by (simp add: saveBtn_click_def Let_def)
  next
    case (Some t)
    show ?thesis
    proof (cases "price_rejected t")
      case True
      show ?thesis
        using wf1 by (simp add: save_rejected [OF \<open>currentProductInModal s = Some ref\<close> Some True])
    next
      case False
      show ?thesis
        using wf1
        by (simp add: save_accepted(2) [OF \<open>currentProductInModal s = Some ref\<close> Some False]
            pending_wf_record_edits)
    qed
  qed
qed

lemma changesToSend_examples:
  "changesToSend [(7, [(''description'', ''Cup''), (''ATT Color'', ''Blue'')])]
     = [(7, ''description'', ''Cup''), (7, ''ATT Color'', ''Blue'')]"
  "changesToSend [(10, [(''price'', ''3'')]), (2, [(''description'', ''Jar'')]), (5, [])]
     = [(2, ''description'', ''Jar''), (10, ''price'', ''3'')]"
  by (simp_all add: changesToSend_def own_entries_def List.map_filter_simps int_index_def
      string_index_def is_digit_def)

subsection \<open>The filter object\<close>

lemma map_of_add_filter:
  "map_of (add_filter pg attr fs) key
     = (if key = sanitizeAttr attr then Some (attr_entry pg key) else map_of fs key)"
  by (simp add: add_filter_def Let_def update_conv' attr_entry_def)

lemma build_filters_fold:
  "map_of (fold (add_filter pg) names fs) key
     = (if key \<in> sanitizeAttr ` set names then Some (attr_entry pg key) else map_of fs key)"
  by (induction names arbitrary: fs) (auto simp: map_of_add_filter)

lemma distinct_build_filters_fold:
  "distinct (map fst fs) \<Longrightarrow> distinct (map fst (fold (add_filter pg) names fs))"
  by (induction names arbitrary: fs) (simp_all add: add_filter_def Let_def distinct_update)

lemma map_of_build_filters:
  "map_of (build_filters names pg) key
     = (if key \<in> sanitizeAttr ` set names then Some (attr_entry pg key) else None)"
  by (simp add: build_filters_def build_filters_fold)

lemma distinct_build_filters: "distinct (map fst (build_filters names pg))"
  by (simp add: build_filters_def distinct_build_filters_fold)

lemma in_build_filters:
  "(k, sel) \<in> set (build_filters names pg) \<longleftrightarrow> k \<in> sanitizeAttr ` set names \<and> sel = attr_entry pg k"
proof -
  have "(k, sel) \<in> set (build_filters names pg) \<longleftrightarrow> map_of (build_filters names pg) k = Some sel"
    using distinct_build_filters by simp
  then show ?thesis
    by (auto simp: map_of_build_filters)
qed

lemma filters_loop_iff:
  "filters_loop L product \<longleftrightarrow> (\<forall>entry \<in> set L. passes product (fst entry) (snd entry))"
  by (induction L product rule: filters_loop.induct)
     (auto simp: Let_def passes_def split: option.splits)

lemma build_filters_pass:
  "(\<forall>entry \<in> set (build_filters names pg). passes product (fst entry) (snd entry))
   \<longleftrightarrow> (\<forall>attr \<in> set names. passes product (sanitizeAttr attr) (attr_entry pg (sanitizeAttr attr)))"
proof
  assume l: "\<forall>entry \<in> set (build_filters names pg). passes product (fst entry) (snd entry)"
  show "\<forall>attr \<in> set names. passes product (sanitizeAttr attr) (attr_entry pg (sanitizeAttr attr))"
  proof
    fix attr assume "attr \<in> set names"
    then have "(sanitizeAttr attr, attr_entry pg (sanitizeAttr attr)) \<in> set (build_filters names pg)"
      by (simp add: in_build_filters)
    with l show "passes product (sanitizeAttr attr) (attr_entry pg (sanitizeAttr attr))"
      by fastforce
  qed
next
  assume r: "\<forall>attr \<in> set names. passes product (sanitizeAttr attr) (attr_entry pg (sanitizeAttr attr))"
  show "\<forall>entry \<in> set (build_filters names pg). passes product (fst entry) (snd entry)"
  proof
    fix entry assume "entry \<in> set (build_filters names pg)"
    then have "(fst entry, snd entry) \<in> set (build_filters names pg)" by simp
    then obtain attr where "attr \<in> set names" "fst entry = sanitizeAttr attr"
      "snd entry = attr_entry pg (sanitizeAttr attr)"
      unfolding in_build_filters by auto
    with r show "passes product (fst entry) (snd entry)" by simp
  qed
qed

lemma shown_iff:
  "shown names pg product \<longleftrightarrow>
     (\<forall>attr \<in> set names. passes product (sanitizeAttr attr) (attr_entry pg (sanitizeAttr attr)))
     \<and> (flag_entry pg = [] \<or> ''All'' \<in> set (flag_entry pg) \<or> list_ex (flag_true product) (flag_entry pg))"
  unfolding shown_def product_show_def Let_def filters_loop_iff set_own_entries build_filters_pass
  by auto

subsection \<open>What \<^verbatim>\<open>applyFilters\<close> changes\<close>

lemma getAttribute_display [simp]: "getAttribute (p\<lparr>display := d\<rparr>) key = getAttribute p key"
  by (simp add: getAttribute_def)

lemma flag_true_display [simp]: "flag_true (p\<lparr>display := d\<rparr>) f = flag_true p f"
  by (simp add: flag_true_def)

lemma opt_value_update_attr_option [simp]:
  "opt_value (update_attr_option vis key opt) = opt_value opt"
  by (simp add: update_attr_option_def Let_def)

lemma update_attr_option_idem [simp]:
  "update_attr_option vis key (update_attr_option vis key opt) = update_attr_option vis key opt"
  by (simp add: update_attr_option_def Let_def)

lemma opt_value_update_retail_option [simp]:
  "opt_value (update_retail_option vis opt) = opt_value opt"
  by (simp add: update_retail_option_def Let_def)

lemma facet_idem [simp]: "facet vis key (facet vis key ctl) = facet vis key ctl"
  by (simp add: facet_def)

lemma facet_attr_frame [simp]:
  "product_els (facet_attr vis attr pg) = product_els pg"
  "retail_filter (facet_attr vis attr pg) = retail_filter pg"
  by (simp_all add: facet_attr_def Let_def)

lemma map_of_facet_attr:
  "map_of (attr_filters (facet_attr vis attr pg)) key
   = map_option (if key = sanitizeAttr attr then facet vis key else id) (map_of (attr_filters pg) key)"
  by (auto simp: facet_attr_def Let_def map_of_map_entry facet_def option.map_id split: option.splits)

lemma fold_facet_attr_frame [simp]:
  "product_els (fold (facet_attr vis) names pg) = product_els pg"
  "retail_filter (fold (facet_attr vis) names pg) = retail_filter pg"
  by (induction names arbitrary: pg; simp)+

lemma map_of_fold_facet_attr:
  "map_of (attr_filters (fold (facet_attr vis) names pg)) key
   = map_option (if key \<in> sanitizeAttr ` set names then facet vis key else id) (map_of (attr_filters pg) key)"
proof (induction names arbitrary: pg)
  case Nil
  then show ?case by (cases "map_of (attr_filters pg) key") simp_all
next
  case (Cons a names)
  show ?case
    by (cases "map_of (attr_filters pg) key") (simp_all add: Cons.IH map_of_facet_attr)
qed

lemma updateFilterOptions_attr:
  "map_of (attr_filters (updateFilterOptions names pg)) key
   = map_option (if key \<in> sanitizeAttr ` set names then facet (visible_els pg) key else id)
       (map_of (attr_filters pg) key)"
  by (simp add: updateFilterOptions_def Let_def map_of_fold_facet_attr)

lemma updateFilterOptions_retail:
  "retail_filter (updateFilterOptions names pg)
   = map_option (\<lambda>ctl. ctl\<lparr>sel_options := map (update_retail_option (visible_els pg)) (sel_options ctl)\<rparr>)
       (retail_filter pg)"
  by (simp add: updateFilterOptions_def Let_def)

lemma updateFilterOptions_els [simp]:
  "product_els (updateFilterOptions names pg) = product_els pg"
  by (simp add: updateFilterOptions_def Let_def)

lemma applyFilters_hide: "applyFilters names pg = updateFilterOptions names (hide names pg)"
  by (simp add: applyFilters_def Let_def hide_def shown_def flag_entry_def)

lemma hide_frame [simp]:
  "attr_filters (hide names pg) = attr_filters pg"
  "retail_filter (hide names pg) = retail_filter pg"
  by (simp_all add: hide_def)

lemma applyFilters_els:
  "product_els (applyFilters names pg) =
     map (\<lambda>product. product\<lparr>display := (if shown names pg product then ''block'' else ''none'')\<rparr>)
       (product_els pg)"
  by (simp add: applyFilters_hide hide_def)

lemma visible_map_display:
  "filter (\<lambda>p. display p \<noteq> ''none'')
      (map (\<lambda>product. product\<lparr>display := (if P product then ''block'' else ''none'')\<rparr>) els)
   = map (\<lambda>p. p\<lparr>display := ''block''\<rparr>) (filter P els)"
  by (induction els) simp_all

lemma visible_hide:
  "visible_els (hide names pg) = map (\<lambda>p. p\<lparr>display := ''block''\<rparr>) (filter (shown names pg) (product_els pg))"
  by (simp add: visible_els_def hide_def visible_map_display)

lemma visible_applyFilters:
  "visible_els (applyFilters names pg) = map (\<lambda>p. p\<lparr>display := ''block''\<rparr>) (filter (shown names pg) (product_els pg))"
  by (simp add: visible_els_def applyFilters_els visible_map_display)

subsection \<open>Entries, flags and options\<close>

lemma upper_char_cases:
  "upper_char c = CHR ''T'' \<longleftrightarrow> c \<in> {CHR ''t'', CHR ''T''}"
  "upper_char c = CHR ''R'' \<longleftrightarrow> c \<in> {CHR ''r'', CHR ''R''}"
  "upper_char c = CHR ''U'' \<longleftrightarrow> c \<in> {CHR ''u'', CHR ''U''}"
  "upper_char c = CHR ''E'' \<longleftrightarrow> c \<in> {CHR ''e'', CHR ''E''}"
  by (auto simp: upper_char_def split: if_splits)

lemma toUpperCase_TRUE:
  "toUpperCase v = ''TRUE'' \<longleftrightarrow>
     (\<exists>a b c d. v = [a, b, c, d] \<and> a \<in> {CHR ''t'', CHR ''T''} \<and> b \<in> {CHR ''r'', CHR ''R''}
        \<and> c \<in> {CHR ''u'', CHR ''U''} \<and> d \<in> {CHR ''e'', CHR ''E''})"
proof
  assume "toUpperCase v = ''TRUE''"
  then have m: "map upper_char v = [CHR ''T'', CHR ''R'', CHR ''U'', CHR ''E'']"
    by (simp add: toUpperCase_def)
  then obtain a b c d where v: "v = [a, b, c, d]"
    by (auto simp: map_eq_Cons_conv)
  with m have "upper_char a = CHR ''T''" "upper_char b = CHR ''R''" "upper_char c = CHR ''U''"
    "upper_char d = CHR ''E''" by simp_all
  then show "\<exists>a b c d. v = [a, b, c, d] \<and> a \<in> {CHR ''t'', CHR ''T''} \<and> b \<in> {CHR ''r'', CHR ''R''}
        \<and> c \<in> {CHR ''u'', CHR ''U''} \<and> d \<in> {CHR ''e'', CHR ''E''}"
    unfolding upper_char_cases using v by blast
next
  assume "\<exists>a b c d. v = [a, b, c, d] \<and> a \<in> {CHR ''t'', CHR ''T''} \<and> b \<in> {CHR ''r'', CHR ''R''}
        \<and> c \<in> {CHR ''u'', CHR ''U''} \<and> d \<in> {CHR ''e'', CHR ''E''}"
  then obtain a b c d where v: "v = [a, b, c, d]"
    and "upper_char a = CHR ''T''" "upper_char b = CHR ''R''" "upper_char c = CHR ''U''"
    "upper_char d = CHR ''E''"
    unfolding upper_char_cases by blast
  then show "toUpperCase v = ''TRUE''" by (simp add: toUpperCase_def)
qed

lemma passes_entry_ok:
  assumes "entry_ok sel"
  shows "passes product key sel \<longleftrightarrow>
     (set sel \<noteq> {''All''} \<longrightarrow> (\<exists>v. getAttribute product key = Some v \<and> v \<in> set sel))"
  using assms by (auto simp: passes_def entry_ok_def)

lemma flags_entry_ok:
  assumes "entry_ok flags"
  shows "(flags = [] \<or> ''All'' \<in> set flags \<or> list_ex (flag_true product) flags) \<longleftrightarrow>
     (set flags \<noteq> {''All''} \<longrightarrow>
        (\<exists>d \<in> set flags. \<exists>v. getAttribute product d = Some v \<and> toUpperCase v = ''TRUE''))"
  using assms by (auto simp: entry_ok_def list_ex_iff flag_true_def split: option.splits)

lemma sanitize_colour: "sanitizeAttr ''ATT Color'' = ''ATT_Color''"
  by (simp add: sanitizeAttr_def replace_all_def)

lemma red_page_facts:
  "attr_entry red_page ''ATT_Color'' = [''Red'']"
  "flag_entry red_page = [''All'']"
  "product_els red_page = [mug_el, jar_el]"
  "getAttribute mug_el ''ATT_Color'' = Some ''Red''"
  "getAttribute jar_el ''ATT_Color'' = Some ''Blue''"
  by (simp_all add: red_page_def attr_entry_def flag_entry_def val_or_empty_def all_selected_def
      getAttribute_def lower_char_def mug_el_def jar_el_def)

lemma visible_updateFilterOptions [simp]:
  "visible_els (updateFilterOptions names pg) = visible_els pg"
  by (simp add: visible_els_def)

lemma attr_options_applyFilters:
  assumes "attr \<in> set names"
  shows "attr_options (applyFilters names pg) (sanitizeAttr attr)
         = map (update_attr_option (visible_els (applyFilters names pg)) (sanitizeAttr attr))
             (attr_options pg (sanitizeAttr attr))"
proof -
  have vis: "visible_els (applyFilters names pg) = visible_els (hide names pg)"
    by (simp add: visible_applyFilters visible_hide)
  show ?thesis
    using assms
    by (cases "map_of (attr_filters pg) (sanitizeAttr attr)")
       (simp_all add: attr_options_def vis applyFilters_hide updateFilterOptions_attr facet_def)
qed

lemma flag_options_applyFilters:
  "flag_options (applyFilters names pg)
     = map (update_retail_option (visible_els (applyFilters names pg))) (flag_options pg)"
proof -
  have vis: "visible_els (applyFilters names pg) = visible_els (hide names pg)"
    by (simp add: visible_applyFilters visible_hide)
  show ?thesis
    by (cases "retail_filter pg")
       (simp_all add: flag_options_def vis applyFilters_hide updateFilterOptions_retail)
qed

lemma filter_All_update_attr:
  "filter (\<lambda>opt. opt_value opt = ''All'') (map (update_attr_option vis key) opts)
     = filter (\<lambda>opt. opt_value opt = ''All'') opts"
  by (induction opts) (simp_all add: update_attr_option_def Let_def)

lemma filter_All_update_retail:
  "filter (\<lambda>opt. opt_value opt = ''All'') (map (update_retail_option vis) opts)
     = filter (\<lambda>opt. opt_value opt = ''All'') opts"
  by (induction opts) (simp_all add: update_retail_option_def Let_def)

lemma enabled_update_attr:
  "opt_value opt \<noteq> ''All'' \<Longrightarrow>
   \<not> opt_disabled (update_attr_option vis key opt)
     \<longleftrightarrow> (\<exists>p \<in> set vis. getAttribute p key = Some (opt_value opt))"
  by (auto simp: update_attr_option_def Let_def intro: rev_image_eqI)

lemma enabled_update_retail:
  "opt_value opt \<noteq> ''All'' \<Longrightarrow>
   \<not> opt_disabled (update_retail_option vis opt)
     \<longleftrightarrow> (\<exists>p \<in> set vis. flag_true p (opt_value opt))"
  by (auto simp: update_retail_option_def Let_def list_ex_iff)

lemma red_page_shown:
  "shown [''ATT Color''] red_page mug_el" "\<not> shown [''ATT Color''] red_page jar_el"
  by (simp_all add: shown_iff sanitize_colour red_page_facts passes_def)

lemma red_page_options:
  "attr_options red_page ''ATT_Color'' =
     [\<lparr>opt_value = ''All'', opt_disabled = False\<rparr>, \<lparr>opt_value = ''Blue'', opt_disabled = False\<rparr>,
      \<lparr>opt_value = ''Red'', opt_disabled = False\<rparr>]"
  by (simp add: attr_options_def red_page_def all_selected_def)

subsection \<open>The entries of the controls\<close>

lemma get_ctl_set_val:
  "get_ctl c (set_val this vals pg)
     = (if c = this then map_option (\<lambda>ctl. ctl\<lparr>sel_val := Some vals\<rparr>) (get_ctl this pg)
        else get_ctl c pg)"
  by (cases this; cases c) (auto simp: get_ctl_def set_val_def map_of_map_entry split: option.splits)

lemma has_ctl_set_val [simp]:
  "get_ctl c (set_val this vals pg) = None \<longleftrightarrow> get_ctl c pg = None"
  by (simp add: get_ctl_set_val)


lemma get_ctl_applyFilters:
  "get_ctl c (applyFilters names pg) = None \<longleftrightarrow> get_ctl c pg = None"
  "filter_entry (applyFilters names pg) c = filter_entry pg c"
proof -
  have "(get_ctl c (applyFilters names pg) = None \<longleftrightarrow> get_ctl c pg = None)
      \<and> filter_entry (applyFilters names pg) c = filter_entry pg c"
  proof (cases c)
    case (AttrFilter key)
    then show ?thesis
      by (cases "map_of (attr_filters pg) key")
         (simp_all add: get_ctl_def filter_entry_def applyFilters_hide updateFilterOptions_attr
            facet_def val_or_empty_def)
  next
    case RetailFilter
    then show ?thesis
      by (cases "retail_filter pg")
         (simp_all add: get_ctl_def filter_entry_def applyFilters_hide updateFilterOptions_retail
            val_or_empty_def)
  qed
  then show "get_ctl c (applyFilters names pg) = None \<longleftrightarrow> get_ctl c pg = None"
    and "filter_entry (applyFilters names pg) c = filter_entry pg c" by simp_all
qed

lemma filter_entry_absent: "get_ctl this pg = None \<Longrightarrow> filter_entry pg this = []"
  by (simp add: filter_entry_def val_or_empty_def)








lemma has_ctl_filter_step [simp]:
  "get_ctl c (filter_step names ev pg) = None \<longleftrightarrow> get_ctl c pg = None"
  by (cases ev)
     (simp_all add: select2_select_def select2_unselect_def widget_pick_def widget_unpick_def
        Let_def get_ctl_applyFilters)






subsection \<open>Prices as numbers\<close>

lemma price_numbers:
  "price_number (priced 1 ''$10'') = Num 10"
  "price_number (priced 2 ''$2'') = Num 2"
  "price_number (priced 3 ''abc'') = NaN"
  "price_number (priced 4 ''$'') = NaN"
  "price_number ((priced 5 '''')\<lparr>grid_price := None\<rparr>) = Num 0"
  by (simp_all add: price_number_def priced_def parseFloat_def is_digit_def nat_of_digits_def
      digit_val_def Let_def)

section \<open>The claims\<close>

subsection \<open>C1: what a save leaves in the pending change set\<close>

text \<open>
  C1 as stated: an entry \<^verbatim>\<open>pendingChanges[id][field]\<close> exists only if the record's current value
  of the field differs from its original value, also when the field was edited back across
  saves. The script does not do this. After the description of the mug was saved as \<open>Cup\<close>
  and then saved back as \<open>Mug\<close>, its original value, the entry of the description is still
  there and holds \<open>Mug\<close>.
\<close>

theorem reverted_description_stays_pending:
  "pending_entry cup_then_mug 7 ''description'' = Some ''Mug''
   \<and> description (PRODUCTS_DATA cup_then_mug ! 0) = ''Mug''
   \<and> original_description (PRODUCTS_DATA cup_then_mug ! 0) = ''Mug''"
  by (simp add: pending_entry_def cup_then_mug_data mug_def)

text \<open>
  C1 as amended. A save compares each entered value with the value the record holds at that
  moment, not with the original value, and it never removes an entry. With a product open,
  an accepted price and one row per attribute (none of them called \<open>description\<close> or
  \<open>price\<close>): the entry of a field after the save is the entered value when that differs from
  the record's value before the save, and is what it was before the save otherwise; so a
  field that was edited and put back before the save gets no entry from it. Every entry that
  existed before the save exists after it. After the save the record holds the entered
  values.
\<close>

theorem pending_entry_follows_current_value:
  assumes "currentProductInModal s = Some ref" and "ref < length (PRODUCTS_DATA s)"
    and "modalPrice (modal s) = Some priceText" and "\<not> price_rejected priceText"
    and "distinct (map row_attrName (modalRows (modal s)))"
    and "''description'' \<notin> row_attrName ` set (modalRows (modal s))"
    and "''price'' \<notin> row_attrName ` set (modalRows (modal s))"
  shows "(let p = PRODUCTS_DATA s ! ref; idx = original_index p; s' = snd (saveBtn_click s);
              p' = PRODUCTS_DATA s' ! ref
          in pending_entry s' idx ''description'' =
               (if trim (modalDescription (modal s)) \<noteq> description p
                then Some (trim (modalDescription (modal s)))
                else pending_entry s idx ''description'')
           \<and> pending_entry s' idx ''price'' =
               (if trim priceText \<noteq> price p then Some (trim priceText)
                else pending_entry s idx ''price'')
           \<and> (\<forall>row \<in> set (modalRows (modal s)).
                 pending_entry s' idx (row_attrName row) =
                   (if Some (row_value row) \<noteq> map_of (attributes p) (row_attrName row)
                    then Some (row_value row)
                    else pending_entry s idx (row_attrName row)))
           \<and> (\<forall>i f. pending_entry s i f \<noteq> None \<longrightarrow> pending_entry s' i f \<noteq> None)
           \<and> description p' = trim (modalDescription (modal s))
           \<and> price p' = trim priceText
           \<and> (\<forall>row \<in> set (modalRows (modal s)).
                 map_of (attributes p') (row_attrName row) = Some (row_value row)))"
proof -
  let ?p = "PRODUCTS_DATA s ! ref"
  let ?idx = "original_index ?p"
  let ?s1 = "init_pending ?idx s"
  let ?s4 = "record_edits ref ?idx ?s1"
  let ?s' = "snd (saveBtn_click s)"
  have len: "ref < length (PRODUCTS_DATA ?s1)" using assms(2) by simp
  have mp: "modalPrice (modal ?s1) = Some priceText" using assms(3) by simp
  have pc: "pendingChanges ?s' = pendingChanges ?s4" by (rule save_accepted(2) [OF assms(1,3,4)])
  have ent: "pending_entry ?s' i f = pending_entry ?s4 i f" for i f
    by (rule pending_entry_cong_pending) (rule pc)
  have data: "PRODUCTS_DATA ?s' ! ref =
      ?p\<lparr>description := trim (modalDescription (modal s)), price := trim priceText,
         attributes := fold attr_step (modalRows (modal s)) (attributes ?p)\<rparr>"
    using assms(2) by (simp add: save_accepted(1) [OF assms(1,3,4)] record_edits_data [OF len mp])
  have d: "pending_entry ?s' ?idx ''description'' =
      (if trim (modalDescription (modal s)) \<noteq> description ?p
       then Some (trim (modalDescription (modal s))) else pending_entry s ?idx ''description'')"
    using pending_entry_record_edits_description [OF len init_pending_defined mp] assms(6)
    by (simp add: ent)
  have pr: "pending_entry ?s' ?idx ''price'' =
      (if trim priceText \<noteq> price ?p then Some (trim priceText) else pending_entry s ?idx ''price'')"
    using pending_entry_record_edits_price [OF len init_pending_defined mp] assms(7)
      accepted_price_unstripped(1) [OF assms(4)]
    by (simp add: ent)
  have rw: "pending_entry ?s' ?idx (row_attrName row) =
      (if Some (row_value row) \<noteq> map_of (attributes ?p) (row_attrName row)
       then Some (row_value row) else pending_entry s ?idx (row_attrName row))"
    if "row \<in> set (modalRows (modal s))" for row
  proof -
    have "row_attrName row \<in> row_attrName ` set (modalRows (modal s))"
      using that by (rule imageI)
    then have ne: "row_attrName row \<noteq> ''description''" "row_attrName row \<noteq> ''price''"
      using assms(6,7) by metis+
    have dist: "distinct (map row_attrName (modalRows (modal ?s1)))" using assms(5) by simp
    have mem: "row \<in> set (modalRows (modal ?s1))" using that by simp
    show ?thesis
      using pending_entry_record_edits_row [OF len init_pending_defined mp dist mem ne]
      by (simp add: ent)
  qed
  have keep: "pending_entry ?s' i f \<noteq> None" if "pending_entry s i f \<noteq> None" for i f
  proof -
    have "pending_entry ?s1 i f \<noteq> None" using that by simp
    then have "pending_entry ?s4 i f \<noteq> None"
      by (rule record_edits_keeps [OF init_pending_defined])
    then show ?thesis by (simp add: ent)
  qed
  have at: "map_of (attributes (PRODUCTS_DATA ?s' ! ref)) (row_attrName row) = Some (row_value row)"
    if "row \<in> set (modalRows (modal s))" for row
    using map_of_fold_attr_step_row [OF assms(5) that] by (simp add: data)
  show ?thesis
    unfolding Let_def
    using d pr rw keep at data by simp
qed

theorem pending_entry_follows_current_value_witness:
  "currentProductInModal (editing ''Cup'' ''10'' ''Red'') = Some 0
   \<and> 0 < length (PRODUCTS_DATA (editing ''Cup'' ''10'' ''Red''))
   \<and> modalPrice (modal (editing ''Cup'' ''10'' ''Red'')) = Some ''10''
   \<and> \<not> price_rejected ''10''
   \<and> distinct (map row_attrName (modalRows (modal (editing ''Cup'' ''10'' ''Red''))))
   \<and> ''description'' \<notin> row_attrName ` set (modalRows (modal (editing ''Cup'' ''10'' ''Red'')))
   \<and> ''price'' \<notin> row_attrName ` set (modalRows (modal (editing ''Cup'' ''10'' ''Red'')))
   \<and> pending_entry (snd (saveBtn_click (editing ''Cup'' ''10'' ''Red''))) 7 ''description'' = Some ''Cup''
   \<and> pending_entry (snd (saveBtn_click (editing ''Cup'' ''10'' ''Red''))) 7 ''price'' = None
   \<and> pending_entry (snd (saveBtn_click (editing ''Cup'' ''10'' ''Red''))) 7 ''ATT Color'' = None
   \<and> description (PRODUCTS_DATA (snd (saveBtn_click (editing ''Cup'' ''10'' ''Red''))) ! 0) = ''Cup''"
proof -
  let ?s = "editing ''Cup'' ''10'' ''Red''"
  have h1: "currentProductInModal ?s = Some 0" by (simp add: mug_defs)
  have h2: "0 < length (PRODUCTS_DATA ?s)" by (simp add: mug_defs)
  have h3: "modalPrice (modal ?s) = Some ''10''" by (simp add: mug_defs)
  have h4: "\<not> price_rejected ''10''" by (rule price_10_accepted)
  have h5: "distinct (map row_attrName (modalRows (modal ?s)))" by (simp add: mug_defs)
  have h6: "''description'' \<notin> row_attrName ` set (modalRows (modal ?s))" by (simp add: mug_defs)
  have h7: "''price'' \<notin> row_attrName ` set (modalRows (modal ?s))" by (simp add: mug_defs)
  have tr: "trim ''Cup'' = ''Cup''" "trim ''10'' = ''10''" by (simp_all add: trim_def is_ws_def)
  have before: "PRODUCTS_DATA ?s ! 0 = mug" "modalDescription (modal ?s) = ''Cup''"
    "modalRows (modal ?s) = [\<lparr>row_attrName = ''ATT Color'', row_select = ''Red'', row_input = []\<rparr>]"
    "pending_entry ?s 7 ''price'' = None" "pending_entry ?s 7 ''ATT Color'' = None"
    by (simp_all add: mug_defs pending_entry_def)
  have m: "original_index mug = 7" "description mug = ''Mug''" "price mug = ''10''"
    "map_of (attributes mug) ''ATT Color'' = Some ''Red''"
    by (simp_all add: mug_def)
  note inst = pending_entry_follows_current_value [OF h1 h2 h3 h4 h5 h6 h7, unfolded Let_def before m tr]
  let ?row = "\<lparr>row_attrName = ''ATT Color'', row_select = ''Red'', row_input = []\<rparr>"
  have "pending_entry (snd (saveBtn_click ?s)) 7 (row_attrName ?row) =
      (if Some (row_value ?row) \<noteq> map_of (attributes mug) (row_attrName ?row)
       then Some (row_value ?row) else pending_entry ?s 7 (row_attrName ?row))"
    using inst [THEN conjunct2, THEN conjunct2, THEN conjunct1] by (rule bspec) simp
  then have colour: "pending_entry (snd (saveBtn_click ?s)) 7 ''ATT Color'' = None"
    by (simp add: row_value_def m before)
  show ?thesis
    using h1 h2 h3 h4 h5 h6 h7 inst colour by simp
qed

subsection \<open>C2: sorting by price\<close>

text \<open>
  C2 says that a price text that cannot be parsed sorts as zero, so that the grid with the
  prices \<open>$10\<close>, \<open>$2\<close>, \<open>abc\<close> sorts ascending as \<open>abc\<close>, \<open>$2\<close>, \<open>$10\<close>. In the script only a
  product without a price element counts as zero. The text \<open>abc\<close> is stripped to the empty
  text, which \<^verbatim>\<open>parseFloat\<close> reads as \<^verbatim>\<open>NaN\<close>; the comparator then returns \<^verbatim>\<open>NaN\<close> for every pair
  with that product, which the sort reads as a tie, and the product stays behind the two
  others: the sorted grid is \<open>$2\<close>, \<open>$10\<close>, \<open>abc\<close>.
\<close>

theorem unparseable_price_is_not_zero:
  "price_number (priced 3 ''abc'') = NaN
   \<and> sort_comparator localeCompare ''price'' ''asc'' (priced 3 ''abc'') (priced 2 ''$2'') = NaN
   \<and> sort_comparator localeCompare ''price'' ''asc'' (priced 2 ''$2'') (priced 3 ''abc'') = NaN
   \<and> sort_comparator localeCompare ''price'' ''asc'' (priced 2 ''$2'') (priced 1 ''$10'') = Num (- 8)
   \<and> map el_product_index (product_els (sortByField localeCompare ''price'' ''asc'' price_page))
        = [2, 1, 3]
   \<and> map (map_option textContent \<circ> grid_price)
         (product_els (sortByField localeCompare ''price'' ''asc'' price_page))
        = [Some ''$2'', Some ''$10'', Some ''abc'']"
proof -
  have c: "sort_comparator localeCompare ''price'' ''asc'' a b = minus_number (price_number a) (price_number b)"
    for a b
    by (simp add: sort_comparator_def Let_def)
  have s: "product_els (sortByField localeCompare ''price'' ''asc'' price_page)
      = [priced 2 ''$2'', priced 1 ''$10'', priced 3 ''abc'']"
    by (simp add: sortByField_def price_page_def array_sort_def c price_numbers strictly_before_def)
  show ?thesis
    unfolding s by (simp add: c price_numbers) (simp add: priced_def)
qed

subsection \<open>C3: a refused price aborts the whole save\<close>

text \<open>
  C3 as stated: when the price fails the validation, only the commit of the price is
  aborted, and the description and attribute edits of the modal are recorded as if the
  price had not been edited. The script returns from the handler instead. With the
  description changed to \<open>Cup\<close> and the colour to \<open>Blue\<close>, the price text \<open>$12\<close> leaves both
  edits unrecorded and the record as it was, while the unedited price text \<open>10\<close> records
  both.
\<close>

theorem invalid_price_discards_other_edits:
  "pending_entry (snd (saveBtn_click (editing ''Cup'' ''$12'' ''Blue''))) 7 ''description'' = None
   \<and> pending_entry (snd (saveBtn_click (editing ''Cup'' ''$12'' ''Blue''))) 7 ''ATT Color'' = None
   \<and> description (PRODUCTS_DATA (snd (saveBtn_click (editing ''Cup'' ''$12'' ''Blue''))) ! 0) = ''Mug''
   \<and> pending_entry (snd (saveBtn_click (editing ''Cup'' ''10'' ''Blue''))) 7 ''description'' = Some ''Cup''
   \<and> pending_entry (snd (saveBtn_click (editing ''Cup'' ''10'' ''Blue''))) 7 ''ATT Color'' = Some ''Blue''
   \<and> description (PRODUCTS_DATA (snd (saveBtn_click (editing ''Cup'' ''10'' ''Blue''))) ! 0) = ''Cup''"
proof -
  have bad: "pendingChanges (snd (saveBtn_click (editing ''Cup'' ''$12'' ''Blue''))) = [(7, [])]"
    "PRODUCTS_DATA (snd (saveBtn_click (editing ''Cup'' ''$12'' ''Blue''))) = [mug]"
    unfolding mug_refused [OF price_examples(2)] by (simp_all add: mug_defs init_pending_def)
  have good: "pendingChanges (snd (saveBtn_click (editing ''Cup'' ''10'' ''Blue''))) =
       [(7, [(''description'', ''Cup''), (''ATT Color'', ''Blue'')])]"
    "PRODUCTS_DATA (snd (saveBtn_click (editing ''Cup'' ''10'' ''Blue''))) =
       [mug\<lparr>description := ''Cup'', attributes := [(''ATT Color'', ''Blue'')]\<rparr>]"
    unfolding mug_save [OF editing_facts price_10_accepted]
    by (simp_all add: mug_defs edit_eval Let_def)
  show ?thesis
    by (simp add: pending_entry_def bad good mug_def)
qed

text \<open>
  C3 as amended. When the price fails the validation, the save of that record is aborted as
  a whole: the handler returns after the validation message, and the records, every pending
  entry, the modal, the page and the requests are what they were before the click.
\<close>

theorem invalid_price_aborts_save:
  assumes "currentProductInModal s = Some ref" and "modalPrice (modal s) = Some priceText"
    and "price_rejected priceText"
  shows "fst (saveBtn_click s) = Normal
    \<and> alerts (snd (saveBtn_click s)) = alerts s @ [invalid_price_message]
    \<and> PRODUCTS_DATA (snd (saveBtn_click s)) = PRODUCTS_DATA s
    \<and> (\<forall>i f. pending_entry (snd (saveBtn_click s)) i f = pending_entry s i f)
    \<and> modal (snd (saveBtn_click s)) = modal s
    \<and> page (snd (saveBtn_click s)) = page s
    \<and> currentProductInModal (snd (saveBtn_click s)) = currentProductInModal s
    \<and> requests (snd (saveBtn_click s)) = requests s"
proof -
  let ?s1 = "init_pending (original_index (PRODUCTS_DATA s ! ref)) s"
  have click: "saveBtn_click s = (Normal, ?s1\<lparr>alerts := alerts s @ [invalid_price_message]\<rparr>)"
    by (rule save_rejected [OF assms])
  have "pending_entry (?s1\<lparr>alerts := alerts s @ [invalid_price_message]\<rparr>) i f = pending_entry s i f"
    for i f
    using pending_entry_init [of "original_index (PRODUCTS_DATA s ! ref)" s i f]
    by (simp add: pending_entry_def)
  then show ?thesis
    unfolding click by simp
qed

theorem invalid_price_aborts_save_witness:
  "currentProductInModal (editing ''Cup'' ''$12'' ''Blue'') = Some 0
   \<and> modalPrice (modal (editing ''Cup'' ''$12'' ''Blue'')) = Some ''$12''
   \<and> price_rejected ''$12''
   \<and> alerts (snd (saveBtn_click (editing ''Cup'' ''$12'' ''Blue''))) = [invalid_price_message]
   \<and> PRODUCTS_DATA (snd (saveBtn_click (editing ''Cup'' ''$12'' ''Blue''))) = [mug]
   \<and> pending_entry (snd (saveBtn_click (editing ''Cup'' ''$12'' ''Blue''))) 7 ''description'' = None"
proof -
  let ?s = "editing ''Cup'' ''$12'' ''Blue''"
  have h1: "currentProductInModal ?s = Some 0" by (simp add: editing_def)
  have h2: "modalPrice (modal ?s) = Some ''$12''" by (simp add: editing_def)
  have h3: "price_rejected ''$12''" by (rule price_examples(2))
  have e: "alerts ?s = []" "PRODUCTS_DATA ?s = [mug]" "pending_entry ?s 7 ''description'' = None"
    by (simp_all add: editing_def pending_entry_def)
  note inst = invalid_price_aborts_save [OF h1 h2 h3]
  show ?thesis
    using h1 h2 h3 inst e by simp
qed

subsection \<open>C4: which products a filter state shows\<close>

text \<open>
  C4. Let every entry of the filter state obey the invariant of the specification (it is not
  empty, and \<open>All\<close> excludes every other token). Then \<^verbatim>\<open>applyFilters\<close> leaves a product visible
  if and only if (1) for every attribute whose entry is not \<open>All\<close>, the product has a value
  for the attribute and the value is in the entry, and (2) if the entry of the flags is not
  \<open>All\<close>, the product has a value for one of the selected flags that reads \<open>TRUE\<close> in upper
  case. A product without a value for an attribute is in no entry of concrete tokens and
  is not held back by the entry \<open>All\<close>. A value reads \<open>TRUE\<close> in upper case exactly when it is
  the four letters t, r, u, e in either case. The attribute values are the \<^verbatim>\<open>data-\<close> attributes
  of the product's element, which is where the script reads them.
\<close>

theorem visible_iff_filters_pass:
  assumes "\<forall>attr \<in> set names. entry_ok (attr_entry pg (sanitizeAttr attr))"
    and "entry_ok (flag_entry pg)"
    and "i < length (product_els pg)"
  shows "(display (product_els (applyFilters names pg) ! i) \<noteq> ''none'' \<longleftrightarrow>
           (\<forall>attr \<in> set names.
              set (attr_entry pg (sanitizeAttr attr)) \<noteq> {''All''} \<longrightarrow>
              (\<exists>v. getAttribute (product_els pg ! i) (sanitizeAttr attr) = Some v
                    \<and> v \<in> set (attr_entry pg (sanitizeAttr attr))))
           \<and> (set (flag_entry pg) \<noteq> {''All''} \<longrightarrow>
                (\<exists>d \<in> set (flag_entry pg). \<exists>v.
                    getAttribute (product_els pg ! i) d = Some v \<and> toUpperCase v = ''TRUE'')))
    \<and> display (product_els (applyFilters names pg) ! i) \<in> {''block'', ''none''}
    \<and> (\<forall>v. toUpperCase v = ''TRUE'' \<longleftrightarrow>
          (\<exists>a b c d. v = [a, b, c, d] \<and> a \<in> {CHR ''t'', CHR ''T''} \<and> b \<in> {CHR ''r'', CHR ''R''}
             \<and> c \<in> {CHR ''u'', CHR ''U''} \<and> d \<in> {CHR ''e'', CHR ''E''}))"
proof -
  let ?p = "product_els pg ! i"
  have d: "display (product_els (applyFilters names pg) ! i) = (if shown names pg ?p then ''block'' else ''none'')"
    using assms(3) by (simp add: applyFilters_els)
  have a: "(\<forall>attr \<in> set names. passes ?p (sanitizeAttr attr) (attr_entry pg (sanitizeAttr attr)))
     \<longleftrightarrow> (\<forall>attr \<in> set names.
              set (attr_entry pg (sanitizeAttr attr)) \<noteq> {''All''} \<longrightarrow>
              (\<exists>v. getAttribute ?p (sanitizeAttr attr) = Some v
                    \<and> v \<in> set (attr_entry pg (sanitizeAttr attr))))"
    using assms(1) by (simp add: passes_entry_ok)
  have s: "shown names pg ?p \<longleftrightarrow>
           (\<forall>attr \<in> set names.
              set (attr_entry pg (sanitizeAttr attr)) \<noteq> {''All''} \<longrightarrow>
              (\<exists>v. getAttribute ?p (sanitizeAttr attr) = Some v
                    \<and> v \<in> set (attr_entry pg (sanitizeAttr attr))))
           \<and> (set (flag_entry pg) \<noteq> {''All''} \<longrightarrow>
                (\<exists>d \<in> set (flag_entry pg). \<exists>v.
                    getAttribute ?p d = Some v \<and> toUpperCase v = ''TRUE''))"
    unfolding shown_iff a flags_entry_ok [OF assms(2)] ..
  show ?thesis
    unfolding d using s toUpperCase_TRUE by simp
qed

theorem visible_iff_filters_pass_witness:
  "entry_ok (attr_entry red_page (sanitizeAttr ''ATT Color''))
   \<and> entry_ok (flag_entry red_page)
   \<and> 1 < length (product_els red_page)
   \<and> display (product_els (applyFilters [''ATT Color''] red_page) ! 0) = ''block''
   \<and> display (product_els (applyFilters [''ATT Color''] red_page) ! 1) = ''none''"
proof -
  have h1: "\<forall>attr \<in> set [''ATT Color'']. entry_ok (attr_entry red_page (sanitizeAttr attr))"
    by (simp add: sanitize_colour red_page_facts entry_ok_def)
  have h2: "entry_ok (flag_entry red_page)"
    by (simp add: red_page_facts entry_ok_def)
  have h3: "0 < length (product_els red_page)" "1 < length (product_els red_page)"
    by (simp_all add: red_page_facts)
  note mug = visible_iff_filters_pass [OF h1 h2 h3(1)]
  note jar = visible_iff_filters_pass [OF h1 h2 h3(2)]
  have "display (product_els (applyFilters [''ATT Color''] red_page) ! 0) \<noteq> ''none''"
    using mug [THEN conjunct1] by (simp add: sanitize_colour red_page_facts)
  then have m: "display (product_els (applyFilters [''ATT Color''] red_page) ! 0) = ''block''"
    using mug [THEN conjunct2, THEN conjunct1] by auto
  have j: "display (product_els (applyFilters [''ATT Color''] red_page) ! 1) = ''none''"
    using jar [THEN conjunct1] by (simp add: sanitize_colour red_page_facts)
  have h1': "entry_ok (attr_entry red_page (sanitizeAttr ''ATT Color''))"
    using h1 by simp
  show ?thesis
    using h1' h2 h3 m j by simp
qed

subsection \<open>C5: which options stay enabled\<close>

text \<open>
  C5. After \<^verbatim>\<open>applyFilters\<close>, for every attribute of the registry the control has the same
  option values as before; an option other than \<open>All\<close> is enabled if and only if some product
  of the visible set of the resulting page has that value for the attribute; an option \<open>All\<close>
  is as it was before, so it stays enabled; an option of the flag control other than \<open>All\<close>
  is enabled if and only if some visible product satisfies the flag. The visible set is
  the set of products that the same run of \<^verbatim>\<open>applyFilters\<close> has left displayed, not the whole
  catalogue: on the page with \<open>Red\<close> picked, the option \<open>Blue\<close> of the hidden jar is disabled.
\<close>

theorem options_follow_visible_set:
  assumes "attr \<in> set names"
  shows "(let pg' = applyFilters names pg; key = sanitizeAttr attr
          in map opt_value (attr_options pg' key) = map opt_value (attr_options pg key)
           \<and> (\<forall>opt \<in> set (attr_options pg' key).
                 opt_value opt \<noteq> ''All'' \<longrightarrow>
                 (\<not> opt_disabled opt
                    \<longleftrightarrow> (\<exists>p \<in> set (visible_els pg'). getAttribute p key = Some (opt_value opt))))
           \<and> filter (\<lambda>opt. opt_value opt = ''All'') (attr_options pg' key)
               = filter (\<lambda>opt. opt_value opt = ''All'') (attr_options pg key)
           \<and> map opt_value (flag_options pg') = map opt_value (flag_options pg)
           \<and> (\<forall>opt \<in> set (flag_options pg').
                 opt_value opt \<noteq> ''All'' \<longrightarrow>
                 (\<not> opt_disabled opt \<longleftrightarrow> (\<exists>p \<in> set (visible_els pg'). flag_true p (opt_value opt))))
           \<and> filter (\<lambda>opt. opt_value opt = ''All'') (flag_options pg')
               = filter (\<lambda>opt. opt_value opt = ''All'') (flag_options pg)
           \<and> visible_els pg' = filter (\<lambda>p. display p \<noteq> ''none'') (product_els pg')
           \<and> visible_els pg' = map (\<lambda>p. p\<lparr>display := ''block''\<rparr>) (filter (shown names pg) (product_els pg)))"
proof -
  let ?pg' = "applyFilters names pg"
  let ?key = "sanitizeAttr attr"
  let ?vis = "visible_els ?pg'"
  note ao = attr_options_applyFilters [OF assms, of pg]
  note fo = flag_options_applyFilters [of names pg]
  have 1: "map opt_value (attr_options ?pg' ?key) = map opt_value (attr_options pg ?key)"
    unfolding ao by (simp add: comp_def)
  have 2: "\<forall>opt \<in> set (attr_options ?pg' ?key). opt_value opt \<noteq> ''All'' \<longrightarrow>
      (\<not> opt_disabled opt \<longleftrightarrow> (\<exists>p \<in> set ?vis. getAttribute p ?key = Some (opt_value opt)))"
    unfolding ao by (auto simp: enabled_update_attr)
  have 3: "filter (\<lambda>opt. opt_value opt = ''All'') (attr_options ?pg' ?key)
      = filter (\<lambda>opt. opt_value opt = ''All'') (attr_options pg ?key)"
    unfolding ao by (rule filter_All_update_attr)
  have 4: "map opt_value (flag_options ?pg') = map opt_value (flag_options pg)"
    unfolding fo by (simp add: comp_def)
  have 5: "\<forall>opt \<in> set (flag_options ?pg'). opt_value opt \<noteq> ''All'' \<longrightarrow>
      (\<not> opt_disabled opt \<longleftrightarrow> (\<exists>p \<in> set ?vis. flag_true p (opt_value opt)))"
    unfolding fo by (auto simp: enabled_update_retail)
  have 6: "filter (\<lambda>opt. opt_value opt = ''All'') (flag_options ?pg')
      = filter (\<lambda>opt. opt_value opt = ''All'') (flag_options pg)"
    unfolding fo by (rule filter_All_update_retail)
  have 7: "?vis = filter (\<lambda>p. display p \<noteq> ''none'') (product_els ?pg')"
    by (simp add: visible_els_def)
  have 8: "?vis = map (\<lambda>p. p\<lparr>display := ''block''\<rparr>) (filter (shown names pg) (product_els pg))"
    by (rule visible_applyFilters)
  show ?thesis
    unfolding Let_def using 1 2 3 4 5 6 7 8 by blast
qed

theorem options_follow_visible_set_witness:
  "''ATT Color'' \<in> set [''ATT Color'']
   \<and> visible_els (applyFilters [''ATT Color''] red_page) = [mug_el]
   \<and> \<lparr>opt_value = ''Blue'', opt_disabled = True\<rparr>
        \<in> set (attr_options (applyFilters [''ATT Color''] red_page) ''ATT_Color'')
   \<and> \<lparr>opt_value = ''Red'', opt_disabled = False\<rparr>
        \<in> set (attr_options (applyFilters [''ATT Color''] red_page) ''ATT_Color'')
   \<and> \<lparr>opt_value = ''All'', opt_disabled = False\<rparr>
        \<in> set (attr_options (applyFilters [''ATT Color''] red_page) ''ATT_Color'')"
proof -
  let ?pg' = "applyFilters [''ATT Color''] red_page"
  let ?opts = "attr_options ?pg' ''ATT_Color''"
  have h: "''ATT Color'' \<in> set [''ATT Color'']" by simp
  note inst = options_follow_visible_set [OF h, of red_page, unfolded Let_def sanitize_colour]
  have "visible_els ?pg' = map (\<lambda>p. p\<lparr>display := ''block''\<rparr>)
      (filter (shown [''ATT Color''] red_page) (product_els red_page))"
    using inst by blast
  then have "visible_els ?pg' = [mug_el\<lparr>display := ''block''\<rparr>]"
    by (simp add: red_page_facts red_page_shown)
  then have vis: "visible_els ?pg' = [mug_el]"
    by (simp add: mug_el_def)
  have vals: "map opt_value ?opts = [''All'', ''Blue'', ''Red'']"
    using inst by (simp add: red_page_options)
  then obtain o1 o2 o3 where opts: "?opts = [o1, o2, o3]"
    and v: "opt_value o1 = ''All''" "opt_value o2 = ''Blue''" "opt_value o3 = ''Red''"
    by (auto simp: map_eq_Cons_conv)
  have ball: "\<forall>opt \<in> set ?opts. opt_value opt \<noteq> ''All'' \<longrightarrow>
      (\<not> opt_disabled opt \<longleftrightarrow> (\<exists>p \<in> set (visible_els ?pg'). getAttribute p ''ATT_Color'' = Some (opt_value opt)))"
    using inst by blast
  have "opt_disabled o2" "\<not> opt_disabled o3"
    using ball by (simp_all add: opts v vis red_page_facts)
  then have o23: "o2 = \<lparr>opt_value = ''Blue'', opt_disabled = True\<rparr>"
    "o3 = \<lparr>opt_value = ''Red'', opt_disabled = False\<rparr>"
    using v by simp_all
  have "filter (\<lambda>opt. opt_value opt = ''All'') ?opts = [\<lparr>opt_value = ''All'', opt_disabled = False\<rparr>]"
    using inst by (simp add: red_page_options)
  then have o1: "o1 = \<lparr>opt_value = ''All'', opt_disabled = False\<rparr>"
    by (simp add: opts v)
  show ?thesis
    using h vis by (simp add: opts o1 o23)
qed

subsection \<open>C6: the price validation of a save\<close>

text \<open>
  C6. With a product open in the modal and a price element on the page, a save is accepted
  with respect to the price exactly when the trimmed text of the price (\<^verbatim>\<open>rawPrice\<close>) is empty
  or matches the numeric pattern: one or more digits, optionally followed by a single
  decimal point and one or more fractional digits. An accepted save returns normally, shows
  no message, leaves the entered price in the record and closes the modal; a refused save
  shows the validation message and changes nothing else but the (possibly new, empty) object
  \<^verbatim>\<open>pendingChanges[idx]\<close>. The text \<open>12.50\<close> is accepted; \<open>$12\<close>, \<open>abc\<close> and \<open>12.5.6\<close> are refused.
\<close>

theorem price_validation:
  assumes "currentProductInModal s = Some ref" and "ref < length (PRODUCTS_DATA s)"
    and "modalPrice (modal s) = Some priceText"
  shows "(price_rejected priceText \<longleftrightarrow> \<not> (trim priceText = [] \<or> numeric_pattern (trim priceText)))
    \<and> (if trim priceText = [] \<or> numeric_pattern (trim priceText)
        then fst (saveBtn_click s) = Normal
           \<and> alerts (snd (saveBtn_click s)) = alerts s
           \<and> price (PRODUCTS_DATA (snd (saveBtn_click s)) ! ref) = trim priceText
           \<and> modalDisplay (modal (snd (saveBtn_click s))) = ''none''
        else saveBtn_click s =
               (Normal, (init_pending (original_index (PRODUCTS_DATA s ! ref)) s)
                          \<lparr>alerts := alerts s @ [invalid_price_message]\<rparr>))
    \<and> \<not> price_rejected ''12.50'' \<and> price_rejected ''$12'' \<and> price_rejected ''abc''
    \<and> price_rejected ''12.5.6''"
proof -
  let ?idx = "original_index (PRODUCTS_DATA s ! ref)"
  have iff: "price_rejected priceText \<longleftrightarrow> \<not> (trim priceText = [] \<or> numeric_pattern (trim priceText))"
    by (rule price_rejected_iff)
  have branch: "if trim priceText = [] \<or> numeric_pattern (trim priceText)
        then fst (saveBtn_click s) = Normal
           \<and> alerts (snd (saveBtn_click s)) = alerts s
           \<and> price (PRODUCTS_DATA (snd (saveBtn_click s)) ! ref) = trim priceText
           \<and> modalDisplay (modal (snd (saveBtn_click s))) = ''none''
        else saveBtn_click s =
               (Normal, (init_pending ?idx s)\<lparr>alerts := alerts s @ [invalid_price_message]\<rparr>)"
  proof (cases "price_rejected priceText")
    case True
    then show ?thesis
      using save_rejected [OF assms(1) assms(3) True] iff by simp
  next
    case False
    have len: "ref < length (PRODUCTS_DATA (init_pending ?idx s))" using assms(2) by simp
    have mp: "modalPrice (modal (init_pending ?idx s)) = Some priceText" using assms(3) by simp
    have "price (PRODUCTS_DATA (snd (saveBtn_click s)) ! ref) = trim priceText"
      using assms(2) by (simp add: save_accepted(1) [OF assms(1) assms(3) False] record_edits_data [OF len mp])
    then show ?thesis
      using False iff save_accepted(3) [OF assms(1) assms(3) False]
        save_accepted_completes [OF assms(1) assms(2) assms(3) False]
      by simp
  qed
  show ?thesis
    using iff branch price_examples(1-4) by blast
qed

theorem price_validation_witness:
  "currentProductInModal (editing ''Mug'' ''12.50'' ''Red'') = Some 0
   \<and> 0 < length (PRODUCTS_DATA (editing ''Mug'' ''12.50'' ''Red''))
   \<and> modalPrice (modal (editing ''Mug'' ''12.50'' ''Red'')) = Some ''12.50''
   \<and> numeric_pattern ''12.50''
   \<and> alerts (snd (saveBtn_click (editing ''Mug'' ''12.50'' ''Red''))) = []
   \<and> price (PRODUCTS_DATA (snd (saveBtn_click (editing ''Mug'' ''12.50'' ''Red''))) ! 0) = ''12.50''"
proof -
  let ?s = "editing ''Mug'' ''12.50'' ''Red''"
  have h1: "currentProductInModal ?s = Some 0" by (simp add: editing_def)
  have h2: "0 < length (PRODUCTS_DATA ?s)" by (simp add: editing_def)
  have h3: "modalPrice (modal ?s) = Some ''12.50''" by (simp add: editing_def)
  have tr: "trim ''12.50'' = ''12.50''" by (simp add: trim_def is_ws_def)
  have al: "alerts ?s = []" by (simp add: editing_def)
  note inst = price_validation [OF h1 h2 h3]
  have acc: "\<not> price_rejected ''12.50''" using inst by blast
  have pat: "numeric_pattern ''12.50''" using inst acc tr by simp
  show ?thesis
    using h1 h2 h3 pat inst tr al by simp
qed

subsection \<open>C7: the change list of a commit\<close>



subsection \<open>C8: the entries of the filter controls\<close>



subsection \<open>C9: a commit that fails\<close>

text \<open>
  C9. When the response reports a failure, the operator sees \<open>Error: \<close> followed by the
  message of the server; when the request or the parsing of the response fails, the operator
  sees \<open>Request failed: \<close> followed by the text of the error. Neither the click handler nor
  the two response handlers change the pending change set or the records, so a second
  click sends the same change list.
\<close>

theorem failed_commit_keeps_pending:
  "pendingChanges (applyChangesBtn_click s) = pendingChanges s
   \<and> on_response (Resolved False msg) s' = s'\<lparr>alerts := alerts s' @ [''Error: '' @ js_string msg]\<rparr>
   \<and> on_response (Rejected err) s' = s'\<lparr>alerts := alerts s' @ [''Request failed: '' @ err]\<rparr>
   \<and> pendingChanges (on_response (Resolved False msg) s') = pendingChanges s'
   \<and> pendingChanges (on_response (Rejected err) s') = pendingChanges s'
   \<and> PRODUCTS_DATA (on_response (Resolved False msg) s') = PRODUCTS_DATA s'
   \<and> PRODUCTS_DATA (on_response (Rejected err) s') = PRODUCTS_DATA s'
   \<and> changesToSend (pendingChanges (on_response (Resolved False msg) (applyChangesBtn_click s)))
        = changesToSend (pendingChanges s)
   \<and> changesToSend (pendingChanges (on_response (Rejected err) (applyChangesBtn_click s)))
        = changesToSend (pendingChanges s)"
  by (simp add: applyChangesBtn_click_def Let_def)

theorem failed_commit_keeps_pending_witness:
  "alerts (on_response (Resolved False (Some ''disk full'')) (applyChangesBtn_click cup_saved))
     = alerts cup_saved @ [''Error: disk full'']
   \<and> alerts (on_response (Rejected ''TypeError: Failed to fetch'') (applyChangesBtn_click cup_saved))
     = alerts cup_saved @ [''Request failed: TypeError: Failed to fetch'']
   \<and> pendingChanges (on_response (Resolved False (Some ''disk full'')) (applyChangesBtn_click cup_saved))
     = [(7, [(''description'', ''Cup'')])]
   \<and> pendingChanges (on_response (Rejected ''TypeError: Failed to fetch'') (applyChangesBtn_click cup_saved))
     = [(7, [(''description'', ''Cup'')])]"
proof -
  have c1: "changesToSend (pendingChanges cup_saved) = [(7, ''description'', ''Cup'')]"
    by (simp add: cup_saved_data changesToSend_def own_entries_def List.map_filter_simps
        int_index_def string_index_def is_digit_def)
  have al: "alerts (applyChangesBtn_click cup_saved) = alerts cup_saved"
    by (simp add: applyChangesBtn_click_def Let_def c1)
  note i1 = failed_commit_keeps_pending [of cup_saved "Some ''disk full''" "applyChangesBtn_click cup_saved"
      "''TypeError: Failed to fetch''"]
  show ?thesis
    using i1 al by (simp add: js_string_def cup_saved_data)
qed

subsection \<open>C10: the dollar sign of a recorded price\<close>




end
